theory Spec2Isabelle
  imports Complex_Main
begin

section \<open>Price alerts of the finance agent\<close>

text \<open>
  The development embeds the price-alert code of the agent: the method
  \<^verbatim>\<open>Chat.checkPriceAlerts\<close> (\<^verbatim>\<open>server.ts\<close>, lines 137-198 of the source file) and the
  tools \<^verbatim>\<open>setPriceAlert\<close>, \<^verbatim>\<open>listAlerts\<close> and \<^verbatim>\<open>deleteAlert\<close> (\<^verbatim>\<open>tools.ts\<close>, which
  follows in the same source file: lines 550-594, 599-628 and 633-659). Line numbers
  below are those of that file.

  Conventions of the embedding:
  \<^item> A JavaScript number is a rational. The alert code only compares numbers
    (\<^verbatim>\<open>>=\<close>, \<^verbatim>\<open><=\<close>, truthiness), and the comparison of two finite doubles is the
    comparison of their exact values. \<^verbatim>\<open>NaN\<close> and the infinities are left out:
    \<^verbatim>\<open>z.number()\<close> refuses \<^verbatim>\<open>NaN\<close>, and JSON has no literal for either.
  \<^item> The agent is a record of the three things the alert code touches: \<^verbatim>\<open>this.state\<close>,
    \<^verbatim>\<open>this.messages\<close> and the wake-ups requested through \<^verbatim>\<open>this.schedule\<close>. Every
    operation takes the agent and returns the agent it leaves behind.
  \<^item> What the code reads from outside (the price feed, the clock, \<^verbatim>\<open>generateId\<close>) is a
    record of inputs handed to the operation. The built-in
    \<^verbatim>\<open>String.prototype.toUpperCase\<close> is a field of that record too: it is not modelled,
    and no property below depends on what it returns.
  \<^item> The calls into the agent framework (\<^verbatim>\<open>setState\<close>, \<^verbatim>\<open>saveMessages\<close>,
    \<^verbatim>\<open>schedule\<close>) are library code outside the repository; they are taken to complete.
    The \<^verbatim>\<open>catch\<close> branches of the source are therefore reached by a failing feed only;
    what they write to the console is not part of the agent.
  \<^item> The check reads the collection (lines 147-149) before it awaits the feed (lines 154
    and 157) and writes the collection it read back afterwards (lines 169-172). It is
    therefore given in two halves, \<open>checkPriceAlerts_begin\<close> and
    \<open>checkPriceAlerts_resume\<close>, the second one applied to the agent as it is when the
    awaits return; \<open>checkPriceAlerts\<close> is the check that nothing interrupts. The tools
    read and write without an await in between.
  \<^item> A template literal that interpolates a number is kept as the list of its fragments,
    the numbers unrendered, since \<^verbatim>\<open>Number.prototype.toString\<close> is not modelled.
\<close>

subsection \<open>Data model\<close>

datatype condition = Above | Below

text \<open>\<^verbatim>\<open>interface PriceAlert\<close> (lines 231-238); the field \<^verbatim>\<open>id\<close> is \<open>id'\<close> here.\<close>

record PriceAlert =
  id' :: string
  symbol :: string
  targetPrice :: rat
  condition :: condition
  createdAt :: string
  active :: bool

record AgentState =
  alerts :: "PriceAlert list"

datatype fragment = Str string | NumToString rat | NumToFixed nat rat

record UIMessage =
  message_id :: string
  role :: string
  message_text :: "fragment list"
  metadata_createdAt :: nat

text \<open>A call \<^verbatim>\<open>this.schedule(when, callback, payload)\<close>.\<close>

record Schedule =
  schedule_when :: nat
  callback :: string
  payload :: string

text \<open>
  \<open>state\<close> is \<open>None\<close> when \<^verbatim>\<open>this.state\<close> (or its \<^verbatim>\<open>alerts\<close>) is undefined, the case
  the source guards with \<^verbatim>\<open>state?.alerts || []\<close>.
\<close>

record Chat =
  state :: "AgentState option"
  messages :: "UIMessage list"
  schedules :: "Schedule list"

text \<open>\<^verbatim>\<open>initialState = { alerts: [] }\<close>, no message, no wake-up.\<close>

definition initialChat :: Chat where
  "initialChat = \<lparr>state = Some \<lparr>alerts = []\<rparr>, messages = [], schedules = []\<rparr>"

text \<open>
  What \<^verbatim>\<open>data.chart?.result?.[0]?.meta?.regularMarketPrice\<close> yields after the fetch of
  lines 154-158: \<open>FetchError\<close> when \<^verbatim>\<open>fetch\<close>, \<^verbatim>\<open>response.json()\<close> or the property access
  throws, \<open>Undefined\<close> when the optional chain finds no value, \<open>Num p\<close> for the number
  the feed reports.
\<close>

datatype feed_result = FetchError | Undefined | Num rat

record Env =
  regularMarketPrice :: "string \<Rightarrow> feed_result"
  generateId :: string
  Date_now :: nat
  new_Date :: nat
  toISOString :: string
  toUpperCase :: "string \<Rightarrow> string"

subsection \<open>Strings\<close>

text \<open>The decimal digits of a non-negative integer, as \<^verbatim>\<open>${Date.now()}\<close> prints them.\<close>

definition digit_char :: "nat \<Rightarrow> char" where
  "digit_char d = char_of (48 + d)"

function decimal :: "nat \<Rightarrow> string" where
  "decimal n = (if n < 10 then [digit_char n] else decimal (n div 10) @ [digit_char (n mod 10)])"
  by pat_completeness auto
termination
  by (relation "measure id") auto

declare decimal.simps [simp del]

subsection \<open>The check of one alert: \<^verbatim>\<open>Chat.checkPriceAlerts\<close>\<close>

definition alerts_of :: "Chat \<Rightarrow> PriceAlert list" where
  "alerts_of this = (case state this of None \<Rightarrow> [] | Some st \<Rightarrow> alerts st)"

text \<open>Lines 162-165: the constant \<^verbatim>\<open>triggered\<close>.\<close>

definition triggered :: "PriceAlert \<Rightarrow> rat \<Rightarrow> bool" where
  "triggered alert currentPrice =
     (if condition alert = Above then currentPrice \<ge> targetPrice alert
      else currentPrice \<le> targetPrice alert)"

definition condition_string :: "condition \<Rightarrow> string" where
  "condition_string c = (case c of Above \<Rightarrow> ''above'' | Below \<Rightarrow> ''below'')"

text \<open>Line 183, the text of the notification; the bell is its four UTF-8 bytes.\<close>

definition alert_text :: "PriceAlert \<Rightarrow> rat \<Rightarrow> fragment list" where
  "alert_text alert currentPrice =
     [Str ([CHR 0xF0, CHR 0x9F, CHR 0x94, CHR 0x94] @ '' **PRICE ALERT TRIGGERED!**''
           @ [CHR 0x0A, CHR 0x0A]),
      Str (symbol alert), Str '' has gone '', Str (condition_string (condition alert)),
      Str '' $'', NumToString (targetPrice alert), Str (''!'' @ [CHR 0x0A, CHR 0x0A]),
      Str ''Current price: $'', NumToFixed 2 currentPrice]"

text \<open>Lines 169-171: \<^verbatim>\<open>alerts.map((a) => a.id === alertId ? { ...a, active: false } : a)\<close>.\<close>

definition updatedAlerts :: "string \<Rightarrow> PriceAlert list \<Rightarrow> PriceAlert list" where
  "updatedAlerts alertId as =
     map (\<lambda>a. if id' a = alertId then a\<lparr>active := False\<rparr> else a) as"

definition checkPriceAlerts :: "Env \<Rightarrow> string \<Rightarrow> Chat \<Rightarrow> Chat" where
  "checkPriceAlerts env alertId this =
     (case find (\<lambda>a. id' a = alertId) (alerts_of this) of
        None \<Rightarrow> this
      | Some alert \<Rightarrow>
          if \<not> active alert then this
          else (case regularMarketPrice env (symbol alert) of
                  FetchError \<Rightarrow> this
                | Undefined \<Rightarrow> this
                | Num currentPrice \<Rightarrow>
                    if currentPrice = 0 then this
                    else if triggered alert currentPrice then
                      this\<lparr>state := Some \<lparr>alerts = updatedAlerts alertId (alerts_of this)\<rparr>,
                           messages := messages this @
                             [\<lparr>message_id = generateId env, role = ''assistant'',
                               message_text = alert_text alert currentPrice,
                               metadata_createdAt = new_Date env\<rparr>]\<rparr>
                    else
                      this\<lparr>schedules := schedules this @
                             [\<lparr>schedule_when = 300, callback = ''checkPriceAlerts'',
                               payload = alertId\<rparr>]\<rparr>))"

text \<open>
  The same method in two halves. \<open>checkPriceAlerts_begin\<close> is lines 147-151: it yields
  nothing when the method returns at line 151, and otherwise the collection and the alert
  it has read. \<open>checkPriceAlerts_resume\<close> is lines 153-197, run on the agent \<open>this\<close> as
  it is when the awaits of lines 154 and 157 return: \<^verbatim>\<open>this.messages\<close> and the scheduler
  are those of that moment, while \<^verbatim>\<open>alerts\<close> and \<^verbatim>\<open>alert\<close> are what the first half read.
\<close>

definition checkPriceAlerts_begin :: "string \<Rightarrow> Chat \<Rightarrow> (PriceAlert list \<times> PriceAlert) option" where
  "checkPriceAlerts_begin alertId this =
     (case find (\<lambda>a. id' a = alertId) (alerts_of this) of
        None \<Rightarrow> None
      | Some alert \<Rightarrow> if \<not> active alert then None else Some (alerts_of this, alert))"

definition checkPriceAlerts_resume ::
  "Env \<Rightarrow> string \<Rightarrow> PriceAlert list \<Rightarrow> PriceAlert \<Rightarrow> Chat \<Rightarrow> Chat" where
  "checkPriceAlerts_resume env alertId alerts_read alert this =
     (case regularMarketPrice env (symbol alert) of
        FetchError \<Rightarrow> this
      | Undefined \<Rightarrow> this
      | Num currentPrice \<Rightarrow>
          if currentPrice = 0 then this
          else if triggered alert currentPrice then
            this\<lparr>state := Some \<lparr>alerts = updatedAlerts alertId alerts_read\<rparr>,
                 messages := messages this @
                   [\<lparr>message_id = generateId env, role = ''assistant'',
                     message_text = alert_text alert currentPrice,
                     metadata_createdAt = new_Date env\<rparr>]\<rparr>
          else
            this\<lparr>schedules := schedules this @
                   [\<lparr>schedule_when = 300, callback = ''checkPriceAlerts'',
                     payload = alertId\<rparr>]\<rparr>)"

subsection \<open>The tools: \<^verbatim>\<open>setPriceAlert\<close>, \<^verbatim>\<open>listAlerts\<close>, \<^verbatim>\<open>deleteAlert\<close>\<close>

text \<open>Lines 569-576: the constant \<^verbatim>\<open>newAlert\<close>.\<close>

definition newAlert :: "Env \<Rightarrow> string \<Rightarrow> rat \<Rightarrow> condition \<Rightarrow> PriceAlert" where
  "newAlert env symbol_arg targetPrice_arg condition_arg =
     \<lparr>id' = ''alert-'' @ decimal (Date_now env), symbol = toUpperCase env symbol_arg,
      targetPrice = targetPrice_arg, condition = condition_arg,
      createdAt = toISOString env, active = True\<rparr>"

record SetPriceAlertResult =
  success :: bool
  message :: "fragment list"
  result_alertId :: string

text \<open>The check mark of the two confirmations is its three UTF-8 bytes.\<close>

definition check_mark :: string where
  "check_mark = [CHR 0xE2, CHR 0x9C, CHR 0x85]"

definition setPriceAlert ::
  "Env \<Rightarrow> string \<Rightarrow> rat \<Rightarrow> condition \<Rightarrow> Chat \<Rightarrow> Chat \<times> SetPriceAlertResult" where
  "setPriceAlert env symbol_arg targetPrice_arg condition_arg agent =
     (let a = newAlert env symbol_arg targetPrice_arg condition_arg in
        (agent\<lparr>state := Some \<lparr>alerts = alerts_of agent @ [a]\<rparr>,
               schedules := schedules agent @
                 [\<lparr>schedule_when = 300, callback = ''checkPriceAlerts'', payload = id' a\<rparr>]\<rparr>,
         \<lparr>success = True,
          message = [Str (check_mark @ '' Alert set: Notify when ''),
                     Str (toUpperCase env symbol_arg), Str '' goes '',
                     Str (condition_string condition_arg), Str '' $'',
                     NumToString targetPrice_arg],
          result_alertId = id' a\<rparr>))"

record AlertEntry =
  entry_id :: string
  entry_symbol :: string
  entry_condition :: condition
  entry_targetPrice :: rat
  entry_createdAt :: string

datatype ListAlertsResult = Notice string | Listing nat "AlertEntry list"

definition entry_of :: "PriceAlert \<Rightarrow> AlertEntry" where
  "entry_of a =
     \<lparr>entry_id = id' a, entry_symbol = symbol a, entry_condition = condition a,
      entry_targetPrice = targetPrice a, entry_createdAt = createdAt a\<rparr>"

definition listAlerts :: "Chat \<Rightarrow> Chat \<times> ListAlertsResult" where
  "listAlerts agent =
     (let activeAlerts = filter active (alerts_of agent) in
        if length activeAlerts = 0
        then (agent, Notice ''No active price alerts. Use setPriceAlert to create one!'')
        else (agent, Listing (length activeAlerts) (map entry_of activeAlerts)))"

definition deleteAlert :: "string \<Rightarrow> Chat \<Rightarrow> Chat \<times> string" where
  "deleteAlert alertId agent =
     (let as = alerts_of agent;
          kept = filter (\<lambda>a. id' a \<noteq> alertId) as
      in if length as = length kept
         then (agent, ''Alert with ID '' @ alertId @ '' not found'')
         else (agent\<lparr>state := Some \<lparr>alerts = kept\<rparr>\<rparr>,
               check_mark @ '' Alert '' @ alertId @ '' has been deleted''))"

subsection \<open>Histories\<close>

text \<open>
  The operations that reach the collection, as commands, and the agent after a sequence of
  them run one after the other, each check uninterrupted. \<open>created\<close> lists the alerts that the \<^verbatim>\<open>setPriceAlert\<close> calls of a sequence
  construct; \<open>listed_ids\<close> reads the ids off a \<^verbatim>\<open>listAlerts\<close> result.
\<close>

datatype command =
    SetPriceAlert Env string rat condition
  | ListAlerts
  | DeleteAlert string
  | CheckPriceAlerts Env string

fun exec :: "command \<Rightarrow> Chat \<Rightarrow> Chat" where
  "exec (SetPriceAlert env s t c) agent = fst (setPriceAlert env s t c agent)"
| "exec ListAlerts agent = fst (listAlerts agent)"
| "exec (DeleteAlert alertId) agent = fst (deleteAlert alertId agent)"
| "exec (CheckPriceAlerts env alertId) agent = checkPriceAlerts env alertId agent"

fun run :: "command list \<Rightarrow> Chat \<Rightarrow> Chat" where
  "run [] agent = agent"
| "run (c # cs) agent = run cs (exec c agent)"

fun created :: "command list \<Rightarrow> PriceAlert list" where
  "created [] = []"
| "created (SetPriceAlert env s t c # cs) = newAlert env s t c # created cs"
| "created (_ # cs) = created cs"

definition listed_ids :: "ListAlertsResult \<Rightarrow> string list" where
  "listed_ids r = (case r of Notice _ \<Rightarrow> [] | Listing _ es \<Rightarrow> map entry_id es)"

subsection \<open>Wake-ups requested by a check\<close>

text \<open>
  The number of wake-ups for an alert id in a list of requests, and the condition under
  which the check reaches line 193 (the alert is found and active, the feed reports a
  non-zero price, and \<^verbatim>\<open>triggered\<close> is false).
\<close>

definition wakeups_for :: "string \<Rightarrow> Schedule list \<Rightarrow> nat" where
  "wakeups_for alertId ss =
     length (filter (\<lambda>s. callback s = ''checkPriceAlerts'' \<and> payload s = alertId) ss)"

definition not_triggered_branch :: "Env \<Rightarrow> string \<Rightarrow> Chat \<Rightarrow> bool" where
  "not_triggered_branch env alertId this =
     (case find (\<lambda>a. id' a = alertId) (alerts_of this) of
        None \<Rightarrow> False
      | Some a \<Rightarrow>
          active a \<and>
          (case regularMarketPrice env (symbol a) of
             Num p \<Rightarrow> p \<noteq> 0 \<and> \<not> triggered a p
           | _ \<Rightarrow> False))"

subsection \<open>Sample inputs\<close>

definition sample_alert :: "string \<Rightarrow> condition \<Rightarrow> rat \<Rightarrow> bool \<Rightarrow> PriceAlert" where
  "sample_alert i c t b =
     \<lparr>id' = i, symbol = ''XYZ'', targetPrice = t, condition = c,
      createdAt = ''2023-11-14T22:13:20.000Z'', active = b\<rparr>"

definition sample_chat :: "PriceAlert list \<Rightarrow> Chat" where
  "sample_chat as = \<lparr>state = Some \<lparr>alerts = as\<rparr>, messages = [], schedules = []\<rparr>"

text \<open>The sample environment raises the ASCII letters and keeps every other byte.\<close>

definition upper_char :: "char \<Rightarrow> char" where
  "upper_char c =
     (let n = (of_char c :: nat) in if 97 \<le> n \<and> n \<le> 122 then char_of (n - 32) else c)"

definition sample_env :: "feed_result \<Rightarrow> Env" where
  "sample_env r =
     \<lparr>regularMarketPrice = (\<lambda>_. r), generateId = ''msg-1'', Date_now = 1700000000000,
      new_Date = 1700000300000, toISOString = ''2023-11-14T22:13:20.000Z'',
      toUpperCase = map upper_char\<rparr>"

text \<open>
  Two alerts set while the clock shows the same millisecond, as when the model asks for two
  alerts in one step.
\<close>

definition same_millisecond_twice :: Chat where
  "same_millisecond_twice =
     fst (setPriceAlert (sample_env Undefined) ''tsla'' 100 Below
       (fst (setPriceAlert (sample_env Undefined) ''aapl'' 200 Above initialChat)))"

section \<open>Properties\<close>

subsection \<open>Auxiliary facts: lists and the collection\<close>

lemma alerts_of_state [simp]: "alerts_of (this\<lparr>state := Some \<lparr>alerts = as\<rparr>\<rparr>) = as"
  by (simp add: alerts_of_def)

lemma alerts_of_messages [simp]: "alerts_of (this\<lparr>messages := ms\<rparr>) = alerts_of this"
  by (simp add: alerts_of_def)

lemma alerts_of_schedules [simp]: "alerts_of (this\<lparr>schedules := ss\<rparr>) = alerts_of this"
  by (simp add: alerts_of_def)

lemma alerts_of_initialChat: "alerts_of initialChat = []"
  by (simp add: initialChat_def alerts_of_def)

lemma find_filter_neq: "find (\<lambda>a. id' a = x) (filter (\<lambda>a. id' a \<noteq> x) as) = None"
  by (induction as) simp_all

lemma find_None_notin: "find (\<lambda>a. id' a = x) as = None \<longleftrightarrow> x \<notin> id' ` set as"
  by (induction as) auto

lemma find_SomeD: "find P xs = Some a \<Longrightarrow> a \<in> set xs \<and> P a"
  by (induction xs) (auto split: if_splits)

lemma filter_same_length: "length (filter P xs) = length xs \<Longrightarrow> filter P xs = xs"
  by (metis filter_True length_filter_less not_less_iff_gr_or_eq)

lemma one_alert_per_id:
  "distinct (map id' as) \<Longrightarrow> x \<in> id' ` set as \<Longrightarrow> length (filter (\<lambda>a. id' a = x) as) = 1"
proof (induction as)
  case Nil
  then show ?case by simp
next
  case (Cons a as)
  show ?case
  proof (cases "id' a = x")
    case True
    with Cons.prems(1) have "x \<notin> id' ` set as" by auto
    then have "filter (\<lambda>a. id' a = x) as = []"
      by (auto simp: filter_empty_conv)
    with True show ?thesis by simp
  next
    case False
    with Cons.prems have "distinct (map id' as)" and "x \<in> id' ` set as" by auto
    then have "length (filter (\<lambda>a. id' a = x) as) = 1" by (rule Cons.IH)
    with False show ?thesis by simp
  qed
qed

lemma find_updatedAlerts:
  "find (\<lambda>a. id' a = x) (updatedAlerts x as) =
     map_option (\<lambda>a. a\<lparr>active := False\<rparr>) (find (\<lambda>a. id' a = x) as)"
  by (induction as) (simp_all add: updatedAlerts_def)

lemma updatedAlerts_inactive:
  assumes "b \<in> set (updatedAlerts x as)" and "id' b = x"
  shows "\<not> active b"
proof -
  from assms(1) obtain a where a: "a \<in> set as"
      and b: "b = (if id' a = x then a\<lparr>active := False\<rparr> else a)"
    unfolding updatedAlerts_def by auto
  show ?thesis
  proof (cases "id' a = x")
    case True
    with b show ?thesis by simp
  next
    case False
    with b assms(2) show ?thesis by simp
  qed
qed

lemma updatedAlerts_others:
  "filter (\<lambda>a. id' a \<noteq> x) (updatedAlerts x as) = filter (\<lambda>a. id' a \<noteq> x) as"
  by (induction as) (simp_all add: updatedAlerts_def)

lemma updatedAlerts_rel:
  "list_all2 (\<lambda>b a. b = a \<or> b = a\<lparr>active := False\<rparr>) (updatedAlerts alertId as) as"
  by (induction as) (simp_all add: updatedAlerts_def)

lemma updatedAlerts_active:
  assumes "b \<in> set (updatedAlerts alertId as)" and "active b"
  shows "b \<in> set as"
proof -
  from assms(1) obtain a where a: "a \<in> set as"
      and b: "b = (if id' a = alertId then a\<lparr>active := False\<rparr> else a)"
    unfolding updatedAlerts_def by auto
  show ?thesis
  proof (cases "id' a = alertId")
    case True
    with b assms(2) show ?thesis by simp
  next
    case False
    with a b show ?thesis by simp
  qed
qed

subsection \<open>Auxiliary facts: the branches of the check\<close>

lemma check_missing:
  assumes "alertId \<notin> id' ` set (alerts_of this)"
  shows "checkPriceAlerts env alertId this = this"
  using assms by (simp add: checkPriceAlerts_def find_None_notin [symmetric])

lemma check_inactive:
  assumes "find (\<lambda>a. id' a = alertId) (alerts_of this) = Some a" and "\<not> active a"
  shows "checkPriceAlerts env alertId this = this"
  using assms by (simp add: checkPriceAlerts_def)

lemma check_no_price:
  assumes "find (\<lambda>a. id' a = alertId) (alerts_of this) = Some a"
    "regularMarketPrice env (symbol a) = FetchError
       \<or> regularMarketPrice env (symbol a) = Undefined
       \<or> regularMarketPrice env (symbol a) = Num 0"
  shows "checkPriceAlerts env alertId this = this"
  using assms by (auto simp: checkPriceAlerts_def)

lemma check_not_triggered:
  assumes "find (\<lambda>a. id' a = alertId) (alerts_of this) = Some a" "active a"
    "regularMarketPrice env (symbol a) = Num p" "p \<noteq> 0" "\<not> triggered a p"
  shows "checkPriceAlerts env alertId this =
           this\<lparr>schedules := schedules this @
             [\<lparr>schedule_when = 300, callback = ''checkPriceAlerts'', payload = alertId\<rparr>]\<rparr>"
  using assms by (simp add: checkPriceAlerts_def)

lemma check_triggered:
  assumes "find (\<lambda>a. id' a = alertId) (alerts_of this) = Some a" "active a"
    "regularMarketPrice env (symbol a) = Num p" "p \<noteq> 0" "triggered a p"
  shows "checkPriceAlerts env alertId this =
           this\<lparr>state := Some \<lparr>alerts = updatedAlerts alertId (alerts_of this)\<rparr>,
                messages := messages this @
                  [\<lparr>message_id = generateId env, role = ''assistant'',
                    message_text = alert_text a p, metadata_createdAt = new_Date env\<rparr>]\<rparr>"
  using assms by (simp add: checkPriceAlerts_def)

lemma checkPriceAlerts_split:
  "checkPriceAlerts env alertId this =
     (case checkPriceAlerts_begin alertId this of
        None \<Rightarrow> this
      | Some (alerts_read, alert) \<Rightarrow> checkPriceAlerts_resume env alertId alerts_read alert this)"
  by (simp add: checkPriceAlerts_def checkPriceAlerts_begin_def checkPriceAlerts_resume_def
           split: option.splits)

lemma resume_triggered:
  assumes "regularMarketPrice env (symbol a) = Num p" and "p \<noteq> 0" and "triggered a p"
  shows "checkPriceAlerts_resume env alertId alerts_read a now =
           now\<lparr>state := Some \<lparr>alerts = updatedAlerts alertId alerts_read\<rparr>,
               messages := messages now @
                 [\<lparr>message_id = generateId env, role = ''assistant'',
                   message_text = alert_text a p, metadata_createdAt = new_Date env\<rparr>]\<rparr>"
  using assms by (simp add: checkPriceAlerts_resume_def)

lemma check_schedules_other:
  "\<not> not_triggered_branch env alertId this \<Longrightarrow>
     schedules (checkPriceAlerts env alertId this) = schedules this"
  by (auto simp: not_triggered_branch_def checkPriceAlerts_def
           split: option.splits feed_result.splits)

lemma check_reschedules:
  "not_triggered_branch env alertId this \<Longrightarrow>
     checkPriceAlerts env alertId this =
       this\<lparr>schedules := schedules this @
         [\<lparr>schedule_when = 300, callback = ''checkPriceAlerts'', payload = alertId\<rparr>]\<rparr>
     \<and> (\<exists>a. find (\<lambda>a. id' a = alertId) (alerts_of this) = Some a \<and> active a)"
  by (auto simp: not_triggered_branch_def checkPriceAlerts_def
           split: option.splits feed_result.splits)

lemma alerts_of_check:
  "alerts_of (checkPriceAlerts env alertId agent) = alerts_of agent
   \<or> alerts_of (checkPriceAlerts env alertId agent) = updatedAlerts alertId (alerts_of agent)"
  by (simp add: checkPriceAlerts_def split: option.splits feed_result.splits)

lemma check_only_deactivates:
  "list_all2 (\<lambda>b a. b = a \<or> b = a\<lparr>active := False\<rparr>)
     (alerts_of (checkPriceAlerts env alertId agent)) (alerts_of agent)"
  using alerts_of_check [of env alertId agent] updatedAlerts_rel [of alertId "alerts_of agent"]
  by (auto simp: list_all2_same)

lemma check_active:
  assumes "b \<in> set (alerts_of (checkPriceAlerts env alertId agent))" and "active b"
  shows "b \<in> set (alerts_of agent)"
  using alerts_of_check [of env alertId agent] assms updatedAlerts_active by auto

lemma check_noop_when_id_inactive:
  assumes "\<And>b. b \<in> set (alerts_of agent) \<Longrightarrow> id' b = alertId \<Longrightarrow> \<not> active b"
  shows "checkPriceAlerts env alertId agent = agent"
proof (cases "find (\<lambda>a. id' a = alertId) (alerts_of agent)")
  case None
  then show ?thesis by (simp add: checkPriceAlerts_def)
next
  case (Some a)
  from find_SomeD [OF Some] assms have "\<not> active a" by blast
  with Some show ?thesis by (rule check_inactive)
qed

lemma no_active_after_trigger:
  assumes "find (\<lambda>a. id' a = alertId) (alerts_of agent) = Some a" and "active a"
    and "regularMarketPrice env (symbol a) = Num p" and "p \<noteq> 0" and "triggered a p"
    and "b \<in> set (alerts_of (checkPriceAlerts env alertId agent))" and "id' b = alertId"
  shows "\<not> active b"
proof -
  have "alerts_of (checkPriceAlerts env alertId agent) = updatedAlerts alertId (alerts_of agent)"
    by (simp add: check_triggered [OF assms(1-5)])
  with assms(6) have "b \<in> set (updatedAlerts alertId (alerts_of agent))" by simp
  then show ?thesis using assms(7) by (rule updatedAlerts_inactive)
qed

subsection \<open>Auxiliary facts: the tools\<close>

lemma alerts_of_setPriceAlert:
  "alerts_of (fst (setPriceAlert env s t c agent)) = alerts_of agent @ [newAlert env s t c]"
  by (simp add: setPriceAlert_def Let_def)

lemma alerts_of_deleteAlert:
  "alerts_of (fst (deleteAlert alertId this)) = filter (\<lambda>a. id' a \<noteq> alertId) (alerts_of this)"
proof (cases "length (alerts_of this) = length (filter (\<lambda>a. id' a \<noteq> alertId) (alerts_of this))")
  case True
  then show ?thesis
    using filter_same_length [of "\<lambda>a. id' a \<noteq> alertId" "alerts_of this"]
    by (simp add: deleteAlert_def Let_def)
next
  case False
  then show ?thesis by (simp add: deleteAlert_def Let_def)
qed

lemma check_after_delete:
  "checkPriceAlerts env alertId (fst (deleteAlert alertId this)) = fst (deleteAlert alertId this)"
  by (rule check_missing) (auto simp: alerts_of_deleteAlert)

lemma fst_listAlerts: "fst (listAlerts agent) = agent"
  by (simp add: listAlerts_def Let_def)

lemma listed_ids_listAlerts:
  "listed_ids (snd (listAlerts agent)) = map id' (filter active (alerts_of agent))"
  by (simp add: listed_ids_def listAlerts_def Let_def entry_of_def comp_def)

lemma not_listed_when_id_inactive:
  assumes "\<And>b. b \<in> set (alerts_of agent) \<Longrightarrow> id' b = alertId \<Longrightarrow> \<not> active b"
  shows "alertId \<notin> set (listed_ids (snd (listAlerts agent)))"
  using assms by (auto simp: listed_ids_listAlerts)

subsection \<open>Auxiliary facts: clock readings in decimal\<close>

lemma digit_char_inj:
  assumes "d < 10" and "e < 10" and "digit_char d = digit_char e"
  shows "d = e"
proof -
  from assms(3) have "(of_char (digit_char d) :: nat) = of_char (digit_char e)"
    by simp
  then have "(48 + d) mod 256 = (48 + e) mod 256"
    by (simp only: digit_char_def of_char_of)
  with assms(1,2) show ?thesis by simp
qed

lemma decimal_nonempty: "decimal n \<noteq> []"
  by (subst decimal.simps) simp

lemma decimal_last: "last (decimal n) = digit_char (n mod 10)"
  by (subst decimal.simps) simp

lemma decimal_butlast: "butlast (decimal n) = (if n < 10 then [] else decimal (n div 10))"
  by (subst decimal.simps) simp

lemma decimal_inj: "decimal n = decimal m \<Longrightarrow> n = m"
proof (induction n arbitrary: m rule: decimal.induct)
  case (1 n)
  from "1.prems" have "last (decimal n) = last (decimal m)" by simp
  then have "digit_char (n mod 10) = digit_char (m mod 10)"
    by (simp only: decimal_last)
  then have md: "n mod 10 = m mod 10"
    by (intro digit_char_inj) simp_all
  from "1.prems" have bl: "butlast (decimal n) = butlast (decimal m)" by simp
  show ?case
  proof (cases "n < 10")
    case True
    with bl have "(if m < 10 then [] else decimal (m div 10)) = []"
      by (simp add: decimal_butlast)
    then have "m < 10"
      using decimal_nonempty [of "m div 10"] by (simp split: if_splits)
    with True md show ?thesis by simp
  next
    case False
    with bl have e: "decimal (n div 10) = (if m < 10 then [] else decimal (m div 10))"
      by (simp add: decimal_butlast)
    then have m10: "\<not> m < 10"
      using decimal_nonempty [of "n div 10"] by (auto split: if_splits)
    with e have "decimal (n div 10) = decimal (m div 10)" by simp
    with False have "n div 10 = m div 10" by (rule "1.IH")
    with md show ?thesis
      by (metis div_mult_mod_eq)
  qed
qed

lemma newAlert_id_eq:
  "id' (newAlert env s t c) = id' (newAlert env2 s2 t2 c2) \<longleftrightarrow> Date_now env = Date_now env2"
  by (auto simp: newAlert_def dest: decimal_inj)

lemma digit_char_numerals:
  "digit_char 0 = CHR ''0''" "digit_char 1 = CHR ''1''" "digit_char 2 = CHR ''2''"
  "digit_char 3 = CHR ''3''" "digit_char 4 = CHR ''4''" "digit_char 5 = CHR ''5''"
  "digit_char 6 = CHR ''6''" "digit_char 7 = CHR ''7''" "digit_char 8 = CHR ''8''"
  "digit_char 9 = CHR ''9''" "digit_char (Suc 0) = CHR ''1''"
  by (simp_all add: digit_char_def char_of_def bit_0)

subsection \<open>Auxiliary facts: histories\<close>

lemma exec_active:
  assumes "b \<in> set (alerts_of (exec c agent))" and "active b"
  shows "b \<in> set (alerts_of agent) \<or> b \<in> set (created [c])"
proof (cases c)
  case (SetPriceAlert env s t c')
  with assms show ?thesis by (auto simp: alerts_of_setPriceAlert)
next
  case ListAlerts
  with assms show ?thesis by (simp add: fst_listAlerts)
next
  case (DeleteAlert i)
  with assms show ?thesis by (simp add: alerts_of_deleteAlert)
next
  case (CheckPriceAlerts env i)
  with assms check_active show ?thesis by auto
qed

lemma created_Cons: "set (created (c # cs)) = set (created [c]) \<union> set (created cs)"
  by (cases c) simp_all

lemma run_active:
  "b \<in> set (alerts_of (run cs agent)) \<Longrightarrow> active b \<Longrightarrow>
     b \<in> set (alerts_of agent) \<or> b \<in> set (created cs)"
proof (induction cs arbitrary: agent)
  case Nil
  then show ?case by simp
next
  case (Cons c cs)
  from Cons.prems have "b \<in> set (alerts_of (run cs (exec c agent)))" by simp
  with Cons.IH Cons.prems(2)
  have "b \<in> set (alerts_of (exec c agent)) \<or> b \<in> set (created cs)" by blast
  then show ?case
  proof
    assume "b \<in> set (alerts_of (exec c agent))"
    then have "b \<in> set (alerts_of agent) \<or> b \<in> set (created [c])"
      using Cons.prems(2) by (rule exec_active)
    then show ?thesis by (auto simp: created_Cons [of c cs])
  next
    assume "b \<in> set (created cs)"
    then show ?thesis by (simp add: created_Cons [of c cs])
  qed
qed

subsection \<open>Auxiliary facts: the sample inputs\<close>

lemma sample_find:
  "find (\<lambda>a. id' a = i) (alerts_of (sample_chat [sample_alert i c t b]))
     = Some (sample_alert i c t b)"
  by (simp add: sample_chat_def sample_alert_def alerts_of_def)

lemma sample_active: "active (sample_alert i c t b) = b"
  by (simp add: sample_alert_def)

lemma sample_feed: "regularMarketPrice (sample_env r) s = r"
  by (simp add: sample_env_def)

lemma sample_clock_id: "decimal (Date_now (sample_env r)) = ''1700000000000''"
  by (simp add: sample_env_def decimal.simps digit_char_numerals)

lemma ids_same_millisecond_twice:
  "map id' (alerts_of same_millisecond_twice) = [''alert-1700000000000'', ''alert-1700000000000'']"
  unfolding same_millisecond_twice_def alerts_of_setPriceAlert alerts_of_initialChat
  by (simp add: newAlert_def sample_clock_id)

subsection \<open>Setting an alert\<close>

text \<open>
  C1, as the code has it. \<^verbatim>\<open>setPriceAlert\<close> appends one alert with \<^verbatim>\<open>active == true\<close>
  and returns its id, which is \<^verbatim>\<open>alert-\<close> followed by the clock reading
  \<^verbatim>\<open>Date.now()\<close> in decimal. That id collides with no id of the collection as long as
  each of those was generated at another clock reading, and two creates at different clock
  readings return different ids.
\<close>

theorem setPriceAlert_appends_active_alert_with_clock_id:
  "alerts_of (fst (setPriceAlert env s t c agent)) = alerts_of agent @ [newAlert env s t c]
   \<and> active (newAlert env s t c)
   \<and> success (snd (setPriceAlert env s t c agent))
   \<and> result_alertId (snd (setPriceAlert env s t c agent)) = id' (newAlert env s t c)
   \<and> id' (newAlert env s t c) = ''alert-'' @ decimal (Date_now env)
   \<and> ((\<forall>b \<in> set (alerts_of agent). \<exists>n. id' b = ''alert-'' @ decimal n \<and> n \<noteq> Date_now env)
        \<longrightarrow> id' (newAlert env s t c) \<notin> id' ` set (alerts_of agent))
   \<and> (Date_now env2 \<noteq> Date_now env
        \<longrightarrow> result_alertId (snd (setPriceAlert env2 s2 t2 c2 agent2))
              \<noteq> result_alertId (snd (setPriceAlert env s t c agent)))"
proof -
  have 1: "id' (newAlert env s t c) = ''alert-'' @ decimal (Date_now env)"
    by (simp add: newAlert_def)
  have 2: "result_alertId (snd (setPriceAlert env' s' t' c' agent')) = id' (newAlert env' s' t' c')"
    for env' s' t' c' agent'
    by (simp add: setPriceAlert_def Let_def)
  have 3: "id' (newAlert env s t c) \<notin> id' ` set (alerts_of agent)"
    if h: "\<forall>b \<in> set (alerts_of agent). \<exists>n. id' b = ''alert-'' @ decimal n \<and> n \<noteq> Date_now env"
  proof
    assume "id' (newAlert env s t c) \<in> id' ` set (alerts_of agent)"
    then obtain b where b: "b \<in> set (alerts_of agent)" "id' b = id' (newAlert env s t c)"
      by auto
    with h obtain n where n: "id' b = ''alert-'' @ decimal n" "n \<noteq> Date_now env"
      by blast
    from b(2) n(1) 1 have "decimal n = decimal (Date_now env)" by simp
    then have "n = Date_now env" by (rule decimal_inj)
    with n(2) show False by simp
  qed
  have 4: "result_alertId (snd (setPriceAlert env2 s2 t2 c2 agent2))
              \<noteq> result_alertId (snd (setPriceAlert env s t c agent))"
    if "Date_now env2 \<noteq> Date_now env"
    using that by (simp add: 2 newAlert_id_eq)
  have 5: "active (newAlert env s t c)"
    by (simp add: newAlert_def)
  have 6: "success (snd (setPriceAlert env s t c agent))"
    by (simp add: setPriceAlert_def Let_def)
  from alerts_of_setPriceAlert 5 6 2 1 3 4 show ?thesis
    by (intro conjI impI)
qed

theorem setPriceAlert_appends_active_alert_with_clock_id_witness:
  "map id' (alerts_of (fst (setPriceAlert (sample_env Undefined) ''nvda'' 150 Above
       (sample_chat [sample_alert ''alert-1699999999999'' Below 50 True]))))
     = [''alert-1699999999999'', ''alert-1700000000000'']
   \<and> active (newAlert (sample_env Undefined) ''nvda'' 150 Above)
   \<and> result_alertId (snd (setPriceAlert (sample_env Undefined) ''nvda'' 150 Above
       (sample_chat [sample_alert ''alert-1699999999999'' Below 50 True])))
     = ''alert-1700000000000''
   \<and> ''alert-1700000000000''
       \<notin> id' ` set (alerts_of (sample_chat [sample_alert ''alert-1699999999999'' Below 50 True]))
   \<and> result_alertId (snd (setPriceAlert ((sample_env Undefined)\<lparr>Date_now := 1700000000001\<rparr>)
         ''nvda'' 150 Above (sample_chat [])))
       \<noteq> ''alert-1700000000000''"
proof -
  let ?A = "sample_chat [sample_alert ''alert-1699999999999'' Below 50 True]"
  let ?E = "sample_env Undefined"
  let ?E2 = "(sample_env Undefined)\<lparr>Date_now := 1700000000001\<rparr>"
  note t = setPriceAlert_appends_active_alert_with_clock_id
             [of ?E "''nvda''" 150 Above ?A ?E2 "''nvda''" 150 Above "sample_chat []"]
  have as: "alerts_of ?A = [sample_alert ''alert-1699999999999'' Below 50 True]"
    by (simp add: sample_chat_def alerts_of_def)
  have d: "decimal 1699999999999 = ''1699999999999''"
    by (simp add: decimal.simps digit_char_numerals)
  have h1: "\<forall>b \<in> set (alerts_of ?A). \<exists>n. id' b = ''alert-'' @ decimal n \<and> n \<noteq> Date_now ?E"
  proof
    fix b assume "b \<in> set (alerts_of ?A)"
    then have "b = sample_alert ''alert-1699999999999'' Below 50 True"
      by (simp add: as)
    then have "id' b = ''alert-'' @ decimal 1699999999999 \<and> 1699999999999 \<noteq> Date_now ?E"
      by (simp add: d sample_alert_def sample_env_def)
    then show "\<exists>n. id' b = ''alert-'' @ decimal n \<and> n \<noteq> Date_now ?E" ..
  qed
  have h2: "Date_now ?E2 \<noteq> Date_now ?E"
    by (simp add: sample_env_def)
  have i: "id' (newAlert ?E ''nvda'' 150 Above) = ''alert-1700000000000''"
    by (simp add: newAlert_def sample_clock_id)
  have ids: "map id' (alerts_of ?A) = [''alert-1699999999999'']"
    by (simp add: sample_chat_def alerts_of_def sample_alert_def)
  from t have "alerts_of (fst (setPriceAlert ?E ''nvda'' 150 Above ?A))
                 = alerts_of ?A @ [newAlert ?E ''nvda'' 150 Above]"
    by (rule conjunct1)
  then have 1: "map id' (alerts_of (fst (setPriceAlert ?E ''nvda'' 150 Above ?A)))
     = [''alert-1699999999999'', ''alert-1700000000000'']"
    by (simp add: ids i)
  from t have 2: "active (newAlert ?E ''nvda'' 150 Above)"
    by blast
  from t have "result_alertId (snd (setPriceAlert ?E ''nvda'' 150 Above ?A))
                 = id' (newAlert ?E ''nvda'' 150 Above)"
    by blast
  then have 3: "result_alertId (snd (setPriceAlert ?E ''nvda'' 150 Above ?A))
     = ''alert-1700000000000''"
    by (simp only: i)
  from t h1 have "id' (newAlert ?E ''nvda'' 150 Above) \<notin> id' ` set (alerts_of ?A)"
    by blast
  then have 4: "''alert-1700000000000'' \<notin> id' ` set (alerts_of ?A)"
    unfolding i .
  from t h2 have "result_alertId (snd (setPriceAlert ?E2 ''nvda'' 150 Above (sample_chat [])))
       \<noteq> result_alertId (snd (setPriceAlert ?E ''nvda'' 150 Above ?A))"
    by blast
  then have 5: "result_alertId (snd (setPriceAlert ?E2 ''nvda'' 150 Above (sample_chat [])))
       \<noteq> ''alert-1700000000000''"
    unfolding 3 .
  from 1 2 3 4 5 show ?thesis by (intro conjI)
qed

text \<open>
  C1 as stated (the new id never collides, two creates always return distinct ids) fails:
  the new id is not compared with the ids already there, and two creates while the clock
  shows the same millisecond return the same id, the second one colliding with the alert
  the first one stored.
\<close>

theorem setPriceAlert_same_millisecond_collides:
  "result_alertId (snd (setPriceAlert (sample_env Undefined) ''aapl'' 200 Above initialChat))
     = ''alert-1700000000000''
   \<and> result_alertId (snd (setPriceAlert (sample_env Undefined) ''tsla'' 100 Below
        (fst (setPriceAlert (sample_env Undefined) ''aapl'' 200 Above initialChat))))
     = ''alert-1700000000000''
   \<and> map id' (alerts_of (fst (setPriceAlert (sample_env Undefined) ''aapl'' 200 Above initialChat)))
     = [''alert-1700000000000'']
   \<and> map id' (alerts_of same_millisecond_twice)
     = [''alert-1700000000000'', ''alert-1700000000000'']"
proof -
  have r: "result_alertId (snd (setPriceAlert (sample_env Undefined) s t c agent))
             = ''alert-1700000000000''" for s t c agent
    by (simp add: setPriceAlert_def Let_def newAlert_def sample_clock_id)
  have a: "map id' (alerts_of (fst (setPriceAlert (sample_env Undefined) ''aapl'' 200 Above
             initialChat))) = [''alert-1700000000000'']"
    unfolding alerts_of_setPriceAlert alerts_of_initialChat
    by (simp add: newAlert_def sample_clock_id)
  from r r a ids_same_millisecond_twice show ?thesis
    by (intro conjI)
qed

subsection \<open>The trigger condition\<close>

text \<open>
  C2. The constant \<^verbatim>\<open>triggered\<close> of lines 162-165 is, for every alert and every price,
  (condition = above and price >= targetPrice) or (condition = below and price <= targetPrice),
  both comparisons inclusive; the check of an active alert reaches these lines with every
  price the feed reports that passes the guard of line 160 (every non-zero one), and it
  takes the triggered branch exactly when the condition holds. With condition above and
  target 100 the price 100 triggers and 99.99 does not; with condition below and target 50
  the price 50 triggers and 50.01 does not.
\<close>

theorem trigger_condition_is_inclusive:
  "triggered a p =
     ((condition a = Above \<and> p \<ge> targetPrice a)
      \<or> (condition a = Below \<and> p \<le> targetPrice a))
   \<and> (find (\<lambda>a. id' a = alertId) (alerts_of this) = Some a \<and> active a
        \<and> regularMarketPrice env (symbol a) = Num p \<and> p \<noteq> 0 \<longrightarrow>
        checkPriceAlerts env alertId this =
          (if (condition a = Above \<and> p \<ge> targetPrice a)
              \<or> (condition a = Below \<and> p \<le> targetPrice a)
           then this\<lparr>state := Some \<lparr>alerts = updatedAlerts alertId (alerts_of this)\<rparr>,
                     messages := messages this @
                       [\<lparr>message_id = generateId env, role = ''assistant'',
                         message_text = alert_text a p,
                         metadata_createdAt = new_Date env\<rparr>]\<rparr>
           else this\<lparr>schedules := schedules this @
                       [\<lparr>schedule_when = 300, callback = ''checkPriceAlerts'',
                         payload = alertId\<rparr>]\<rparr>))"
proof (intro conjI impI)
  show f: "triggered a p =
           ((condition a = Above \<and> p \<ge> targetPrice a)
            \<or> (condition a = Below \<and> p \<le> targetPrice a))"
    by (cases "condition a") (simp_all add: triggered_def)
  assume "find (\<lambda>a. id' a = alertId) (alerts_of this) = Some a \<and> active a
        \<and> regularMarketPrice env (symbol a) = Num p \<and> p \<noteq> 0"
  then have h: "find (\<lambda>a. id' a = alertId) (alerts_of this) = Some a" "active a"
      "regularMarketPrice env (symbol a) = Num p" "p \<noteq> 0"
    by simp_all
  show "checkPriceAlerts env alertId this =
          (if (condition a = Above \<and> p \<ge> targetPrice a)
              \<or> (condition a = Below \<and> p \<le> targetPrice a)
           then this\<lparr>state := Some \<lparr>alerts = updatedAlerts alertId (alerts_of this)\<rparr>,
                     messages := messages this @
                       [\<lparr>message_id = generateId env, role = ''assistant'',
                         message_text = alert_text a p,
                         metadata_createdAt = new_Date env\<rparr>]\<rparr>
           else this\<lparr>schedules := schedules this @
                       [\<lparr>schedule_when = 300, callback = ''checkPriceAlerts'',
                         payload = alertId\<rparr>]\<rparr>)"
  proof (cases "triggered a p")
    case True
    show ?thesis
      unfolding f [symmetric] using check_triggered [OF h True] True by simp
  next
    case False
    show ?thesis
      unfolding f [symmetric] using check_not_triggered [OF h False] False by simp
  qed
qed

theorem trigger_condition_is_inclusive_witness:
  "triggered (sample_alert ''alert-7'' Above 100 True) 100
   \<and> \<not> triggered (sample_alert ''alert-7'' Above 100 True) 99.99
   \<and> triggered (sample_alert ''alert-7'' Below 50 True) 50
   \<and> \<not> triggered (sample_alert ''alert-7'' Below 50 True) 50.01
   \<and> map message_text (messages (checkPriceAlerts (sample_env (Num 100)) ''alert-7''
         (sample_chat [sample_alert ''alert-7'' Above 100 True])))
       = [alert_text (sample_alert ''alert-7'' Above 100 True) 100]
   \<and> schedules (checkPriceAlerts (sample_env (Num 99.99)) ''alert-7''
         (sample_chat [sample_alert ''alert-7'' Above 100 True]))
       = [\<lparr>schedule_when = 300, callback = ''checkPriceAlerts'', payload = ''alert-7''\<rparr>]"
proof -
  let ?a = "sample_alert ''alert-7'' Above 100 True"
  let ?b = "sample_alert ''alert-7'' Below 50 True"
  have ca: "condition ?a = Above" "targetPrice ?a = 100"
    and cb: "condition ?b = Below" "targetPrice ?b = 50"
    by (simp_all add: sample_alert_def)
  have 1: "triggered ?a 100"
    using trigger_condition_is_inclusive [of ?a 100, THEN conjunct1]
    by (simp add: ca)
  have 2: "\<not> triggered ?a 99.99"
    using trigger_condition_is_inclusive [of ?a "99.99", THEN conjunct1]
    by (simp add: ca)
  have 3: "triggered ?b 50"
    using trigger_condition_is_inclusive [of ?b 50, THEN conjunct1]
    by (simp add: cb)
  have 4: "\<not> triggered ?b 50.01"
    using trigger_condition_is_inclusive [of ?b "50.01", THEN conjunct1]
    by (simp add: cb)
  have h1: "find (\<lambda>a. id' a = ''alert-7'') (alerts_of (sample_chat [?a])) = Some ?a
      \<and> active ?a \<and> regularMarketPrice (sample_env (Num 100)) (symbol ?a) = Num 100
      \<and> (100::rat) \<noteq> 0"
    by (simp add: sample_find sample_active sample_feed)
  have h2: "find (\<lambda>a. id' a = ''alert-7'') (alerts_of (sample_chat [?a])) = Some ?a
      \<and> active ?a \<and> regularMarketPrice (sample_env (Num 99.99)) (symbol ?a) = Num 99.99
      \<and> (99.99::rat) \<noteq> 0"
    by (simp add: sample_find sample_active sample_feed)
  have m: "messages (sample_chat [?a]) = []" and s: "schedules (sample_chat [?a]) = []"
    by (simp_all add: sample_chat_def)
  from trigger_condition_is_inclusive
         [of ?a 100 "''alert-7''" "sample_chat [?a]" "sample_env (Num 100)", THEN conjunct2]
       h1
  have "checkPriceAlerts (sample_env (Num 100)) ''alert-7'' (sample_chat [?a]) =
          (sample_chat [?a])\<lparr>state := Some \<lparr>alerts = updatedAlerts ''alert-7''
                                  (alerts_of (sample_chat [?a]))\<rparr>,
             messages := messages (sample_chat [?a]) @
               [\<lparr>message_id = generateId (sample_env (Num 100)), role = ''assistant'',
                 message_text = alert_text ?a 100,
                 metadata_createdAt = new_Date (sample_env (Num 100))\<rparr>]\<rparr>"
    by (simp add: ca)
  then have 5: "map message_text (messages (checkPriceAlerts (sample_env (Num 100)) ''alert-7''
         (sample_chat [?a]))) = [alert_text ?a 100]"
    by (simp add: m)
  from trigger_condition_is_inclusive
         [of ?a "99.99" "''alert-7''" "sample_chat [?a]" "sample_env (Num 99.99)", THEN conjunct2]
       h2
  have "checkPriceAlerts (sample_env (Num 99.99)) ''alert-7'' (sample_chat [?a]) =
          (sample_chat [?a])\<lparr>schedules := schedules (sample_chat [?a]) @
             [\<lparr>schedule_when = 300, callback = ''checkPriceAlerts'', payload = ''alert-7''\<rparr>]\<rparr>"
    by (simp add: ca)
  then have 6: "schedules (checkPriceAlerts (sample_env (Num 99.99)) ''alert-7''
         (sample_chat [?a]))
       = [\<lparr>schedule_when = 300, callback = ''checkPriceAlerts'', payload = ''alert-7''\<rparr>]"
    by (simp add: s)
  from 1 2 3 4 5 6 show ?thesis by (intro conjI)
qed

subsection \<open>A triggering price\<close>

text \<open>
  C3, as the code has it. Let an active alert be the one the check finds for its id (the
  first alert of the collection with that id, so every alert when the ids are distinct),
  and let the check observe a non-zero triggering price. Then, whatever happened to the
  agent while the feed was awaited, the check writes back the collection it read with that
  alert's \<^verbatim>\<open>active\<close> set to false (every alert carrying the id is deactivated, the others
  are as they were read), appends exactly one assistant message to the messages of that
  moment, and requests no wake-up. The text of the message is the template of line 183:
  it carries the symbol, the word \<^verbatim>\<open>above\<close> or \<^verbatim>\<open>below\<close>, the target price and the
  observed price printed with two decimals, and symbol, condition and target price can be
  read back from it.
\<close>

theorem triggering_price_deactivates_and_notifies_once:
  assumes "find (\<lambda>a. id' a = alertId) (alerts_of this) = Some a" and "active a"
    and "regularMarketPrice env (symbol a) = Num p" and "p \<noteq> 0" and "triggered a p"
  shows "checkPriceAlerts_begin alertId this = Some (alerts_of this, a)
         \<and> checkPriceAlerts env alertId this
             = checkPriceAlerts_resume env alertId (alerts_of this) a this
         \<and> find (\<lambda>a. id' a = alertId)
               (alerts_of (checkPriceAlerts_resume env alertId (alerts_of this) a now))
             = Some (a\<lparr>active := False\<rparr>)
         \<and> (\<forall>b \<in> set (alerts_of (checkPriceAlerts_resume env alertId (alerts_of this) a now)).
               id' b = alertId \<longrightarrow> \<not> active b)
         \<and> length (alerts_of (checkPriceAlerts_resume env alertId (alerts_of this) a now))
             = length (alerts_of this)
         \<and> filter (\<lambda>b. id' b \<noteq> alertId)
               (alerts_of (checkPriceAlerts_resume env alertId (alerts_of this) a now))
             = filter (\<lambda>b. id' b \<noteq> alertId) (alerts_of this)
         \<and> (\<exists>m. messages (checkPriceAlerts_resume env alertId (alerts_of this) a now)
                  = messages now @ [m]
                \<and> role m = ''assistant''
                \<and> message_text m =
                    [Str ([CHR 0xF0, CHR 0x9F, CHR 0x94, CHR 0x94]
                          @ '' **PRICE ALERT TRIGGERED!**'' @ [CHR 0x0A, CHR 0x0A]),
                     Str (symbol a), Str '' has gone '',
                     Str (if condition a = Above then ''above'' else ''below''),
                     Str '' $'', NumToString (targetPrice a),
                     Str (''!'' @ [CHR 0x0A, CHR 0x0A]),
                     Str ''Current price: $'', NumToFixed 2 p]
                \<and> (\<forall>a' p'. alert_text a' p' = message_text m \<longrightarrow>
                      symbol a' = symbol a \<and> condition a' = condition a
                      \<and> targetPrice a' = targetPrice a))
         \<and> schedules (checkPriceAlerts_resume env alertId (alerts_of this) a now)
             = schedules now"
proof -
  let ?after = "checkPriceAlerts_resume env alertId (alerts_of this) a now"
  have eq: "?after =
           now\<lparr>state := Some \<lparr>alerts = updatedAlerts alertId (alerts_of this)\<rparr>,
               messages := messages now @
                 [\<lparr>message_id = generateId env, role = ''assistant'',
                   message_text = alert_text a p, metadata_createdAt = new_Date env\<rparr>]\<rparr>"
    using assms(3-5) by (rule resume_triggered)
  have as: "alerts_of ?after = updatedAlerts alertId (alerts_of this)"
    by (simp add: eq)
  have 0: "checkPriceAlerts_begin alertId this = Some (alerts_of this, a)"
    using assms(1,2) by (simp add: checkPriceAlerts_begin_def)
  have 1: "checkPriceAlerts env alertId this
             = checkPriceAlerts_resume env alertId (alerts_of this) a this"
    by (simp add: checkPriceAlerts_split 0)
  have 2: "find (\<lambda>a. id' a = alertId) (alerts_of ?after) = Some (a\<lparr>active := False\<rparr>)"
    by (simp add: as find_updatedAlerts assms(1))
  have 3: "\<forall>b \<in> set (alerts_of ?after). id' b = alertId \<longrightarrow> \<not> active b"
    using updatedAlerts_inactive by (auto simp: as)
  have 4: "length (alerts_of ?after) = length (alerts_of this)"
    by (simp add: as updatedAlerts_def)
  have 5: "filter (\<lambda>b. id' b \<noteq> alertId) (alerts_of ?after)
             = filter (\<lambda>b. id' b \<noteq> alertId) (alerts_of this)"
    by (simp add: as updatedAlerts_others)
  have shape: "alert_text a p =
               [Str ([CHR 0xF0, CHR 0x9F, CHR 0x94, CHR 0x94]
                     @ '' **PRICE ALERT TRIGGERED!**'' @ [CHR 0x0A, CHR 0x0A]),
                Str (symbol a), Str '' has gone '',
                Str (if condition a = Above then ''above'' else ''below''),
                Str '' $'', NumToString (targetPrice a),
                Str (''!'' @ [CHR 0x0A, CHR 0x0A]),
                Str ''Current price: $'', NumToFixed 2 p]"
    by (cases "condition a") (simp_all add: alert_text_def condition_string_def)
  have inj: "symbol a' = symbol a \<and> condition a' = condition a \<and> targetPrice a' = targetPrice a"
    if "alert_text a' p' = alert_text a p" for a' p'
  proof -
    from that have "symbol a' = symbol a"
      and "condition_string (condition a') = condition_string (condition a)"
      and "targetPrice a' = targetPrice a"
      by (simp_all add: alert_text_def)
    moreover from this(2) have "condition a' = condition a"
      by (cases "condition a'"; cases "condition a") (simp_all add: condition_string_def)
    ultimately show ?thesis by simp
  qed
  have 6: "\<exists>m. messages ?after = messages now @ [m]
                \<and> role m = ''assistant''
                \<and> message_text m =
                    [Str ([CHR 0xF0, CHR 0x9F, CHR 0x94, CHR 0x94]
                          @ '' **PRICE ALERT TRIGGERED!**'' @ [CHR 0x0A, CHR 0x0A]),
                     Str (symbol a), Str '' has gone '',
                     Str (if condition a = Above then ''above'' else ''below''),
                     Str '' $'', NumToString (targetPrice a),
                     Str (''!'' @ [CHR 0x0A, CHR 0x0A]),
                     Str ''Current price: $'', NumToFixed 2 p]
                \<and> (\<forall>a' p'. alert_text a' p' = message_text m \<longrightarrow>
                      symbol a' = symbol a \<and> condition a' = condition a
                      \<and> targetPrice a' = targetPrice a)"
  proof (intro exI conjI)
    let ?m = "\<lparr>message_id = generateId env, role = ''assistant'',
               message_text = alert_text a p, metadata_createdAt = new_Date env\<rparr>"
    show "messages ?after = messages now @ [?m]" by (simp add: eq)
    show "role ?m = ''assistant''" by simp
    show "message_text ?m =
                    [Str ([CHR 0xF0, CHR 0x9F, CHR 0x94, CHR 0x94]
                          @ '' **PRICE ALERT TRIGGERED!**'' @ [CHR 0x0A, CHR 0x0A]),
                     Str (symbol a), Str '' has gone '',
                     Str (if condition a = Above then ''above'' else ''below''),
                     Str '' $'', NumToString (targetPrice a),
                     Str (''!'' @ [CHR 0x0A, CHR 0x0A]),
                     Str ''Current price: $'', NumToFixed 2 p]"
      using shape by simp
    show "\<forall>a' p'. alert_text a' p' = message_text ?m \<longrightarrow>
            symbol a' = symbol a \<and> condition a' = condition a \<and> targetPrice a' = targetPrice a"
    proof (intro allI impI)
      fix a' p'
      assume "alert_text a' p' = message_text ?m"
      then have "alert_text a' p' = alert_text a p" by simp
      then show "symbol a' = symbol a \<and> condition a' = condition a
                 \<and> targetPrice a' = targetPrice a"
        by (rule inj)
    qed
  qed
  have 7: "schedules ?after = schedules now"
    by (simp add: eq)
  from 0 1 2 3 4 5 6 7 show ?thesis by (intro conjI)
qed

theorem triggering_price_deactivates_and_notifies_once_witness:
  "checkPriceAlerts (sample_env (Num 11)) ''alert-7''
       (sample_chat [sample_alert ''alert-7'' Above 10 True])
     = checkPriceAlerts_resume (sample_env (Num 11)) ''alert-7''
         [sample_alert ''alert-7'' Above 10 True] (sample_alert ''alert-7'' Above 10 True)
         (sample_chat [sample_alert ''alert-7'' Above 10 True])
   \<and> find (\<lambda>a. id' a = ''alert-7'')
        (alerts_of (checkPriceAlerts (sample_env (Num 11)) ''alert-7''
           (sample_chat [sample_alert ''alert-7'' Above 10 True])))
     = Some (sample_alert ''alert-7'' Above 10 False)
   \<and> map message_text (messages (checkPriceAlerts (sample_env (Num 11)) ''alert-7''
        (sample_chat [sample_alert ''alert-7'' Above 10 True])))
     = [[Str ([CHR 0xF0, CHR 0x9F, CHR 0x94, CHR 0x94]
              @ '' **PRICE ALERT TRIGGERED!**'' @ [CHR 0x0A, CHR 0x0A]),
         Str ''XYZ'', Str '' has gone '', Str ''above'', Str '' $'', NumToString 10,
         Str (''!'' @ [CHR 0x0A, CHR 0x0A]), Str ''Current price: $'', NumToFixed 2 11]]
   \<and> schedules (checkPriceAlerts (sample_env (Num 11)) ''alert-7''
        (sample_chat [sample_alert ''alert-7'' Above 10 True])) = []"
proof -
  let ?a = "sample_alert ''alert-7'' Above 10 True"
  let ?S = "sample_chat [?a]"
  let ?E = "sample_env (Num 11)"
  have h2: "active ?a"
    by (simp add: sample_active)
  have h3: "regularMarketPrice ?E (symbol ?a) = Num 11"
    by (rule sample_feed)
  have h4: "(11::rat) \<noteq> 0" by simp
  have h5: "triggered ?a 11"
    by (simp add: triggered_def sample_alert_def)
  note t = triggering_price_deactivates_and_notifies_once [OF sample_find h2 h3 h4 h5, of ?S]
  have as: "alerts_of ?S = [?a]"
    by (simp add: sample_chat_def alerts_of_def)
  have u: "?a\<lparr>active := False\<rparr> = sample_alert ''alert-7'' Above 10 False"
    by (simp add: sample_alert_def)
  have f: "symbol ?a = ''XYZ''" "condition ?a = Above" "targetPrice ?a = 10"
    by (simp_all add: sample_alert_def)
  have m: "messages ?S = []" and s: "schedules ?S = []"
    by (simp_all add: sample_chat_def)
  from t have c: "checkPriceAlerts ?E ''alert-7'' ?S
                    = checkPriceAlerts_resume ?E ''alert-7'' (alerts_of ?S) ?a ?S"
    by blast
  then have 1: "checkPriceAlerts ?E ''alert-7'' ?S
                  = checkPriceAlerts_resume ?E ''alert-7'' [?a] ?a ?S"
    unfolding as .
  from t have "find (\<lambda>a. id' a = ''alert-7'')
                 (alerts_of (checkPriceAlerts_resume ?E ''alert-7'' (alerts_of ?S) ?a ?S))
               = Some (?a\<lparr>active := False\<rparr>)"
    by blast
  then have 2: "find (\<lambda>a. id' a = ''alert-7'') (alerts_of (checkPriceAlerts ?E ''alert-7'' ?S))
                  = Some (sample_alert ''alert-7'' Above 10 False)"
    unfolding c [symmetric] u .
  from t obtain msg where
    "messages (checkPriceAlerts_resume ?E ''alert-7'' (alerts_of ?S) ?a ?S)
       = messages ?S @ [msg]"
    and "message_text msg =
           [Str ([CHR 0xF0, CHR 0x9F, CHR 0x94, CHR 0x94]
                 @ '' **PRICE ALERT TRIGGERED!**'' @ [CHR 0x0A, CHR 0x0A]),
            Str (symbol ?a), Str '' has gone '',
            Str (if condition ?a = Above then ''above'' else ''below''),
            Str '' $'', NumToString (targetPrice ?a),
            Str (''!'' @ [CHR 0x0A, CHR 0x0A]),
            Str ''Current price: $'', NumToFixed 2 11]"
    by blast
  then have 3: "map message_text (messages (checkPriceAlerts ?E ''alert-7'' ?S))
     = [[Str ([CHR 0xF0, CHR 0x9F, CHR 0x94, CHR 0x94]
              @ '' **PRICE ALERT TRIGGERED!**'' @ [CHR 0x0A, CHR 0x0A]),
         Str ''XYZ'', Str '' has gone '', Str ''above'', Str '' $'', NumToString 10,
         Str (''!'' @ [CHR 0x0A, CHR 0x0A]), Str ''Current price: $'', NumToFixed 2 11]]"
    unfolding c [symmetric] by (simp add: m f)
  from t have "schedules (checkPriceAlerts_resume ?E ''alert-7'' (alerts_of ?S) ?a ?S)
                 = schedules ?S"
    by blast
  then have 4: "schedules (checkPriceAlerts ?E ''alert-7'' ?S) = []"
    unfolding c [symmetric] s .
  from 1 2 3 4 show ?thesis by (intro conjI)
qed

text \<open>
  C3 as stated fails in two ways. A price of 0 is a triggering price for an alert with
  condition \<^verbatim>\<open>below\<close>, and the check returns at line 160 without deactivating or
  notifying. And of two active alerts that share an id and a symbol, only the first is the
  one the check looks at: a price that triggers the second and not the first leaves both
  active, delivers nothing and requests another wake-up.
\<close>

theorem triggering_price_without_deactivation:
  "active (sample_alert ''alert-7'' Below 50 True)
   \<and> triggered (sample_alert ''alert-7'' Below 50 True) 0
   \<and> checkPriceAlerts (sample_env (Num 0)) ''alert-7''
        (sample_chat [sample_alert ''alert-7'' Below 50 True])
       = sample_chat [sample_alert ''alert-7'' Below 50 True]
   \<and> active (sample_alert ''alert-7'' Below 100 True)
   \<and> triggered (sample_alert ''alert-7'' Below 100 True) 50
   \<and> checkPriceAlerts (sample_env (Num 50)) ''alert-7''
        (sample_chat [sample_alert ''alert-7'' Above 200 True,
                      sample_alert ''alert-7'' Below 100 True])
       = (sample_chat [sample_alert ''alert-7'' Above 200 True,
                       sample_alert ''alert-7'' Below 100 True])
         \<lparr>schedules :=
            [\<lparr>schedule_when = 300, callback = ''checkPriceAlerts'', payload = ''alert-7''\<rparr>]\<rparr>"
proof -
  let ?z = "sample_alert ''alert-7'' Below 50 True"
  let ?a1 = "sample_alert ''alert-7'' Above 200 True"
  let ?a2 = "sample_alert ''alert-7'' Below 100 True"
  have 1: "active ?z" and 4: "active ?a2"
    by (simp_all add: sample_active)
  have 2: "triggered ?z 0" and 5: "triggered ?a2 50"
    by (simp_all add: triggered_def sample_alert_def)
  have "regularMarketPrice (sample_env (Num 0)) (symbol ?z) = FetchError
        \<or> regularMarketPrice (sample_env (Num 0)) (symbol ?z) = Undefined
        \<or> regularMarketPrice (sample_env (Num 0)) (symbol ?z) = Num 0"
    by (simp add: sample_feed)
  with sample_find have 3: "checkPriceAlerts (sample_env (Num 0)) ''alert-7'' (sample_chat [?z])
                              = sample_chat [?z]"
    by (rule check_no_price)
  have f: "find (\<lambda>a. id' a = ''alert-7'') (alerts_of (sample_chat [?a1, ?a2])) = Some ?a1"
    by (simp add: sample_chat_def alerts_of_def sample_alert_def)
  have a: "active ?a1" by (simp add: sample_active)
  have p: "regularMarketPrice (sample_env (Num 50)) (symbol ?a1) = Num 50"
    by (rule sample_feed)
  have n: "\<not> triggered ?a1 50"
    by (simp add: triggered_def sample_alert_def)
  have s: "schedules (sample_chat [?a1, ?a2]) = []"
    by (simp add: sample_chat_def)
  have "checkPriceAlerts (sample_env (Num 50)) ''alert-7'' (sample_chat [?a1, ?a2])
          = (sample_chat [?a1, ?a2])\<lparr>schedules := schedules (sample_chat [?a1, ?a2]) @
              [\<lparr>schedule_when = 300, callback = ''checkPriceAlerts'', payload = ''alert-7''\<rparr>]\<rparr>"
    using f a p _ n by (rule check_not_triggered) simp
  then have 6: "checkPriceAlerts (sample_env (Num 50)) ''alert-7'' (sample_chat [?a1, ?a2])
          = (sample_chat [?a1, ?a2])\<lparr>schedules :=
              [\<lparr>schedule_when = 300, callback = ''checkPriceAlerts'', payload = ''alert-7''\<rparr>]\<rparr>"
    by (simp only: s append_Nil)
  from 1 2 3 4 5 6 show ?thesis by (intro conjI)
qed

subsection \<open>Wake-ups for missing or inactive alerts\<close>

text \<open>
  C4. A wake-up whose alert id is absent from the collection, or whose alert (the first one
  \<^verbatim>\<open>find\<close> meets with that id) has \<^verbatim>\<open>active == false\<close>, leaves the whole agent
  as it was: no notification, no change of state, no new wake-up. In particular a wake-up
  that fires after its alert has been deleted does nothing.
\<close>

theorem wakeup_for_missing_or_inactive_alert_is_noop:
  "(alertId \<notin> id' ` set (alerts_of this)
      \<or> (\<exists>a. find (\<lambda>a. id' a = alertId) (alerts_of this) = Some a \<and> \<not> active a)
     \<longrightarrow> checkPriceAlerts env alertId this = this)
   \<and> checkPriceAlerts env alertId (fst (deleteAlert alertId this))
       = fst (deleteAlert alertId this)"
proof (intro conjI impI)
  assume "alertId \<notin> id' ` set (alerts_of this)
      \<or> (\<exists>a. find (\<lambda>a. id' a = alertId) (alerts_of this) = Some a \<and> \<not> active a)"
  then show "checkPriceAlerts env alertId this = this"
  proof
    assume "alertId \<notin> id' ` set (alerts_of this)"
    then show ?thesis by (rule check_missing)
  next
    assume "\<exists>a. find (\<lambda>a. id' a = alertId) (alerts_of this) = Some a \<and> \<not> active a"
    then obtain a where "find (\<lambda>a. id' a = alertId) (alerts_of this) = Some a" "\<not> active a"
      by blast
    then show ?thesis by (rule check_inactive)
  qed
next
  show "checkPriceAlerts env alertId (fst (deleteAlert alertId this))
       = fst (deleteAlert alertId this)"
    by (rule check_after_delete)
qed

theorem wakeup_for_missing_or_inactive_alert_is_noop_witness:
  "checkPriceAlerts (sample_env (Num 11)) ''alert-7'' (sample_chat []) = sample_chat []
   \<and> checkPriceAlerts (sample_env (Num 11)) ''alert-7''
        (sample_chat [sample_alert ''alert-7'' Above 10 False])
       = sample_chat [sample_alert ''alert-7'' Above 10 False]
   \<and> fst (deleteAlert ''alert-7'' (sample_chat [sample_alert ''alert-7'' Above 10 True]))
       = sample_chat []
   \<and> checkPriceAlerts (sample_env (Num 11)) ''alert-7''
        (fst (deleteAlert ''alert-7'' (sample_chat [sample_alert ''alert-7'' Above 10 True])))
       = sample_chat []"
proof -
  have del: "fst (deleteAlert ''alert-7'' (sample_chat [sample_alert ''alert-7'' Above 10 True]))
       = sample_chat []"
    by (simp add: deleteAlert_def sample_chat_def sample_alert_def alerts_of_def)
  have h1: "''alert-7'' \<notin> id' ` set (alerts_of (sample_chat []))"
    by (simp add: sample_chat_def alerts_of_def)
  have h2: "\<exists>a. find (\<lambda>a. id' a = ''alert-7'')
               (alerts_of (sample_chat [sample_alert ''alert-7'' Above 10 False])) = Some a
             \<and> \<not> active a"
    by (simp add: sample_chat_def sample_alert_def alerts_of_def)
  have c1: "checkPriceAlerts (sample_env (Num 11)) ''alert-7'' (sample_chat []) = sample_chat []"
    using wakeup_for_missing_or_inactive_alert_is_noop
            [of "''alert-7''" "sample_chat []" "sample_env (Num 11)"] h1
    by blast
  have c2: "checkPriceAlerts (sample_env (Num 11)) ''alert-7''
        (sample_chat [sample_alert ''alert-7'' Above 10 False])
       = sample_chat [sample_alert ''alert-7'' Above 10 False]"
    using wakeup_for_missing_or_inactive_alert_is_noop
            [of "''alert-7''" "sample_chat [sample_alert ''alert-7'' Above 10 False]"
                "sample_env (Num 11)"] h2
    by blast
  have c3: "checkPriceAlerts (sample_env (Num 11)) ''alert-7''
        (fst (deleteAlert ''alert-7'' (sample_chat [sample_alert ''alert-7'' Above 10 True])))
       = sample_chat []"
    using wakeup_for_missing_or_inactive_alert_is_noop
            [of "''alert-7''" "sample_chat [sample_alert ''alert-7'' Above 10 True]"
                "sample_env (Num 11)"]
    by (simp only: del)
  show ?thesis
    using c1 c2 del c3 by (intro conjI)
qed

subsection \<open>Feed failure\<close>

text \<open>
  C5. When the check of an active alert cannot obtain a price (the fetch or the parsing
  of its answer throws, lines 153-158 and 195-197), it ends there: the agent is as it was,
  so no wake-up is requested, nothing is retried, no notification is delivered and the
  collection is untouched; the alert is still in the store with \<^verbatim>\<open>active == true\<close>.
\<close>

theorem feed_failure_leaves_alert_dormant:
  assumes "find (\<lambda>a. id' a = alertId) (alerts_of this) = Some a" and "active a"
    and "regularMarketPrice env (symbol a) = FetchError"
  shows "checkPriceAlerts env alertId this = this
         \<and> schedules (checkPriceAlerts env alertId this) = schedules this
         \<and> messages (checkPriceAlerts env alertId this) = messages this
         \<and> state (checkPriceAlerts env alertId this) = state this
         \<and> find (\<lambda>a. id' a = alertId) (alerts_of (checkPriceAlerts env alertId this)) = Some a
         \<and> active a"
proof -
  have "checkPriceAlerts env alertId this = this"
    using assms(1,3) by (simp add: check_no_price)
  with assms(1,2) show ?thesis by simp
qed

theorem feed_failure_leaves_alert_dormant_witness:
  "checkPriceAlerts (sample_env FetchError) ''alert-7''
       (sample_chat [sample_alert ''alert-7'' Above 10 True])
     = sample_chat [sample_alert ''alert-7'' Above 10 True]
   \<and> find (\<lambda>a. id' a = ''alert-7'')
        (alerts_of (checkPriceAlerts (sample_env FetchError) ''alert-7''
           (sample_chat [sample_alert ''alert-7'' Above 10 True])))
       = Some (sample_alert ''alert-7'' Above 10 True)
   \<and> active (sample_alert ''alert-7'' Above 10 True)"
proof -
  have h1: "find (\<lambda>a. id' a = ''alert-7'')
              (alerts_of (sample_chat [sample_alert ''alert-7'' Above 10 True]))
            = Some (sample_alert ''alert-7'' Above 10 True)"
    by (simp add: sample_chat_def sample_alert_def alerts_of_def)
  have h2: "active (sample_alert ''alert-7'' Above 10 True)"
    by (simp add: sample_alert_def)
  have h3: "regularMarketPrice (sample_env FetchError)
              (symbol (sample_alert ''alert-7'' Above 10 True)) = FetchError"
    by (simp add: sample_env_def)
  show ?thesis
    using feed_failure_leaves_alert_dormant [OF h1 h2 h3] by blast
qed

subsection \<open>One wake-up or none\<close>

text \<open>
  C6. Every run of the check does one of two things. In the not-triggered branch it requests
  exactly one wake-up, for the same alert id, 300 seconds out, and leaves state and
  messages alone, so the alert is still active. In every other case (triggered, alert
  missing or inactive, no usable price) it requests no wake-up. Hence a check adds at most
  one wake-up for its own alert id and none for any other id: with the wake-up that fired
  consumed, the number of wake-ups in flight per alert does not grow.
\<close>

theorem check_requests_one_wakeup_or_none:
  "(if not_triggered_branch env alertId this
    then schedules (checkPriceAlerts env alertId this) =
           schedules this @
             [\<lparr>schedule_when = 300, callback = ''checkPriceAlerts'', payload = alertId\<rparr>]
         \<and> state (checkPriceAlerts env alertId this) = state this
         \<and> messages (checkPriceAlerts env alertId this) = messages this
         \<and> (\<exists>a. find (\<lambda>a. id' a = alertId) (alerts_of (checkPriceAlerts env alertId this))
                    = Some a \<and> active a)
    else schedules (checkPriceAlerts env alertId this) = schedules this)
   \<and> wakeups_for i (schedules (checkPriceAlerts env alertId this))
        \<le> wakeups_for i (schedules this) + (if i = alertId then 1 else 0)"
proof (cases "not_triggered_branch env alertId this")
  case True
  from check_reschedules [OF True] show ?thesis
    using True by (auto simp: wakeups_for_def)
next
  case False
  from check_schedules_other [OF False] show ?thesis
    using False by simp
qed

theorem check_requests_one_wakeup_or_none_witness:
  "not_triggered_branch (sample_env (Num 8)) ''alert-7''
     (sample_chat [sample_alert ''alert-7'' Above 10 True])
   \<and> schedules (checkPriceAlerts (sample_env (Num 8)) ''alert-7''
        (sample_chat [sample_alert ''alert-7'' Above 10 True]))
       = [\<lparr>schedule_when = 300, callback = ''checkPriceAlerts'', payload = ''alert-7''\<rparr>]
   \<and> state (checkPriceAlerts (sample_env (Num 8)) ''alert-7''
        (sample_chat [sample_alert ''alert-7'' Above 10 True]))
       = Some \<lparr>alerts = [sample_alert ''alert-7'' Above 10 True]\<rparr>
   \<and> \<not> not_triggered_branch (sample_env (Num 11)) ''alert-7''
     (sample_chat [sample_alert ''alert-7'' Above 10 True])
   \<and> schedules (checkPriceAlerts (sample_env (Num 11)) ''alert-7''
        (sample_chat [sample_alert ''alert-7'' Above 10 True])) = []"
proof -
  have b1: "not_triggered_branch (sample_env (Num 8)) ''alert-7''
     (sample_chat [sample_alert ''alert-7'' Above 10 True])"
    by (simp add: not_triggered_branch_def sample_env_def sample_chat_def sample_alert_def
          alerts_of_def triggered_def)
  have b2: "\<not> not_triggered_branch (sample_env (Num 11)) ''alert-7''
     (sample_chat [sample_alert ''alert-7'' Above 10 True])"
    by (simp add: not_triggered_branch_def sample_env_def sample_chat_def sample_alert_def
          alerts_of_def triggered_def)
  have s: "schedules (sample_chat [sample_alert ''alert-7'' Above 10 True]) = []"
    "state (sample_chat [sample_alert ''alert-7'' Above 10 True])
       = Some \<lparr>alerts = [sample_alert ''alert-7'' Above 10 True]\<rparr>"
    by (simp_all add: sample_chat_def)
  note t1 = check_requests_one_wakeup_or_none
            [of "sample_env (Num 8)" "''alert-7''"
                "sample_chat [sample_alert ''alert-7'' Above 10 True]" "''alert-7''"]
  note t2 = check_requests_one_wakeup_or_none
            [of "sample_env (Num 11)" "''alert-7''"
                "sample_chat [sample_alert ''alert-7'' Above 10 True]" "''alert-7''"]
  from t1 b1 have r1:
    "schedules (checkPriceAlerts (sample_env (Num 8)) ''alert-7''
        (sample_chat [sample_alert ''alert-7'' Above 10 True]))
       = schedules (sample_chat [sample_alert ''alert-7'' Above 10 True]) @
           [\<lparr>schedule_when = 300, callback = ''checkPriceAlerts'', payload = ''alert-7''\<rparr>]"
    "state (checkPriceAlerts (sample_env (Num 8)) ''alert-7''
        (sample_chat [sample_alert ''alert-7'' Above 10 True]))
       = state (sample_chat [sample_alert ''alert-7'' Above 10 True])"
    by (simp_all only: if_True)
  from t2 b2 have r2:
    "schedules (checkPriceAlerts (sample_env (Num 11)) ''alert-7''
        (sample_chat [sample_alert ''alert-7'' Above 10 True]))
       = schedules (sample_chat [sample_alert ''alert-7'' Above 10 True])"
    by (simp only: if_False)
  from r1 r2 b1 b2 show ?thesis
    by (simp only: s append_Nil simp_thms)
qed

subsection \<open>The active flag over time\<close>

text \<open>
  C7, as the code has it: for operations that run one after the other, no operation landing
  between a check's reading of the collection and its writing it back. Then no operation
  sets \<^verbatim>\<open>active\<close> back to true. The check changes an alert at most by setting its flag to
  false, \<^verbatim>\<open>deleteAlert\<close> only removes alerts, \<^verbatim>\<open>setPriceAlert\<close> only appends one,
  \<^verbatim>\<open>listAlerts\<close> changes nothing; so after any sequence of operations every active alert
  either was in the collection before, unchanged, or was constructed by a
  \<^verbatim>\<open>setPriceAlert\<close> of the sequence. Once a check has triggered for an id, a second check
  for that id changes nothing, the id is not in the \<^verbatim>\<open>listAlerts\<close> result, and after any
  later sequence of operations an active alert with that id can only be a newly set one:
  unless a later \<^verbatim>\<open>setPriceAlert\<close> produces that very id again, the check for it stays a
  no-op and the id stays out of the \<^verbatim>\<open>listAlerts\<close> result.
\<close>

theorem active_flag_only_goes_from_true_to_false:
  "list_all2 (\<lambda>b a. b = a \<or> b = a\<lparr>active := False\<rparr>)
     (alerts_of (checkPriceAlerts env0 i0 agent0)) (alerts_of agent0)
   \<and> alerts_of (fst (deleteAlert i0 agent0)) = filter (\<lambda>a. id' a \<noteq> i0) (alerts_of agent0)
   \<and> alerts_of (fst (setPriceAlert env0 s0 t0 c0 agent0))
       = alerts_of agent0 @ [newAlert env0 s0 t0 c0]
   \<and> alerts_of (fst (listAlerts agent0)) = alerts_of agent0
   \<and> (\<forall>b \<in> set (alerts_of (run cs agent0)).
         active b \<longrightarrow> b \<in> set (alerts_of agent0) \<or> b \<in> set (created cs))
   \<and> (find (\<lambda>a. id' a = alertId) (alerts_of agent) = Some a \<and> active a
        \<and> regularMarketPrice env (symbol a) = Num p \<and> p \<noteq> 0 \<and> triggered a p \<longrightarrow>
        checkPriceAlerts env' alertId (checkPriceAlerts env alertId agent)
          = checkPriceAlerts env alertId agent
        \<and> alertId \<notin> set (listed_ids (snd (listAlerts (checkPriceAlerts env alertId agent))))
        \<and> (\<forall>b \<in> set (alerts_of (run cs (checkPriceAlerts env alertId agent))).
              id' b = alertId \<and> active b \<longrightarrow> b \<in> set (created cs))
        \<and> (alertId \<notin> id' ` set (created cs) \<longrightarrow>
              checkPriceAlerts env' alertId (run cs (checkPriceAlerts env alertId agent))
                = run cs (checkPriceAlerts env alertId agent)
              \<and> alertId \<notin> set (listed_ids
                    (snd (listAlerts (run cs (checkPriceAlerts env alertId agent)))))))"
proof -
  have 5: "\<forall>b \<in> set (alerts_of (run cs agent0)).
         active b \<longrightarrow> b \<in> set (alerts_of agent0) \<or> b \<in> set (created cs)"
    using run_active by blast
  have 6: "checkPriceAlerts env' alertId (checkPriceAlerts env alertId agent)
          = checkPriceAlerts env alertId agent
        \<and> alertId \<notin> set (listed_ids (snd (listAlerts (checkPriceAlerts env alertId agent))))
        \<and> (\<forall>b \<in> set (alerts_of (run cs (checkPriceAlerts env alertId agent))).
              id' b = alertId \<and> active b \<longrightarrow> b \<in> set (created cs))
        \<and> (alertId \<notin> id' ` set (created cs) \<longrightarrow>
              checkPriceAlerts env' alertId (run cs (checkPriceAlerts env alertId agent))
                = run cs (checkPriceAlerts env alertId agent)
              \<and> alertId \<notin> set (listed_ids
                    (snd (listAlerts (run cs (checkPriceAlerts env alertId agent))))))"
    if h: "find (\<lambda>a. id' a = alertId) (alerts_of agent) = Some a \<and> active a
        \<and> regularMarketPrice env (symbol a) = Num p \<and> p \<noteq> 0 \<and> triggered a p"
  proof -
    let ?agent1 = "checkPriceAlerts env alertId agent"
    let ?later = "run cs ?agent1"
    from h have inact: "\<not> active b" if "b \<in> set (alerts_of ?agent1)" "id' b = alertId" for b
      using that no_active_after_trigger [of alertId agent a env p b] by blast
    have a: "checkPriceAlerts env' alertId ?agent1 = ?agent1"
      using inact by (rule check_noop_when_id_inactive)
    have b: "alertId \<notin> set (listed_ids (snd (listAlerts ?agent1)))"
      using inact by (rule not_listed_when_id_inactive)
    have c: "b \<in> set (created cs)"
      if "b \<in> set (alerts_of ?later)" "id' b = alertId" "active b" for b
      using run_active [OF that(1,3)] inact [of b] that(2,3) by blast
    have d: "checkPriceAlerts env' alertId ?later = ?later
              \<and> alertId \<notin> set (listed_ids (snd (listAlerts ?later)))"
      if fresh: "alertId \<notin> id' ` set (created cs)"
    proof -
      have "\<not> active b" if "b \<in> set (alerts_of ?later)" "id' b = alertId" for b
        using c [of b] that fresh by blast
      then show ?thesis
        using check_noop_when_id_inactive [of ?later alertId env']
              not_listed_when_id_inactive [of ?later alertId]
        by blast
    qed
    from a b c d show ?thesis by blast
  qed
  have 1: "list_all2 (\<lambda>b a. b = a \<or> b = a\<lparr>active := False\<rparr>)
     (alerts_of (checkPriceAlerts env0 i0 agent0)) (alerts_of agent0)"
    by (rule check_only_deactivates)
  have 2: "alerts_of (fst (deleteAlert i0 agent0)) = filter (\<lambda>a. id' a \<noteq> i0) (alerts_of agent0)"
    by (rule alerts_of_deleteAlert)
  have 3: "alerts_of (fst (setPriceAlert env0 s0 t0 c0 agent0))
       = alerts_of agent0 @ [newAlert env0 s0 t0 c0]"
    by (rule alerts_of_setPriceAlert)
  have 4: "alerts_of (fst (listAlerts agent0)) = alerts_of agent0"
    by (simp only: fst_listAlerts)
  note 7 = 6 [THEN impI [of "find (\<lambda>a. id' a = alertId) (alerts_of agent) = Some a \<and> active a
        \<and> regularMarketPrice env (symbol a) = Num p \<and> p \<noteq> 0 \<and> triggered a p"]]
  from 1 2 3 4 5 7 show ?thesis
    by (intro conjI)
qed

theorem active_flag_only_goes_from_true_to_false_witness:
  "checkPriceAlerts (sample_env (Num 12)) ''alert-7''
       (checkPriceAlerts (sample_env (Num 11)) ''alert-7''
          (sample_chat [sample_alert ''alert-7'' Above 10 True]))
     = checkPriceAlerts (sample_env (Num 11)) ''alert-7''
          (sample_chat [sample_alert ''alert-7'' Above 10 True])
   \<and> ''alert-7'' \<notin> set (listed_ids (snd (listAlerts
         (checkPriceAlerts (sample_env (Num 11)) ''alert-7''
            (sample_chat [sample_alert ''alert-7'' Above 10 True])))))
   \<and> checkPriceAlerts (sample_env (Num 12)) ''alert-7''
       (run [ListAlerts, SetPriceAlert (sample_env Undefined) ''abc'' 5 Below,
             DeleteAlert ''alert-8'', CheckPriceAlerts (sample_env (Num 12)) ''alert-7'']
          (checkPriceAlerts (sample_env (Num 11)) ''alert-7''
             (sample_chat [sample_alert ''alert-7'' Above 10 True])))
     = run [ListAlerts, SetPriceAlert (sample_env Undefined) ''abc'' 5 Below,
            DeleteAlert ''alert-8'', CheckPriceAlerts (sample_env (Num 12)) ''alert-7'']
          (checkPriceAlerts (sample_env (Num 11)) ''alert-7''
             (sample_chat [sample_alert ''alert-7'' Above 10 True]))
   \<and> ''alert-7'' \<notin> set (listed_ids (snd (listAlerts
         (run [ListAlerts, SetPriceAlert (sample_env Undefined) ''abc'' 5 Below,
               DeleteAlert ''alert-8'', CheckPriceAlerts (sample_env (Num 12)) ''alert-7'']
            (checkPriceAlerts (sample_env (Num 11)) ''alert-7''
               (sample_chat [sample_alert ''alert-7'' Above 10 True]))))))"
proof -
  let ?A = "sample_chat [sample_alert ''alert-7'' Above 10 True]"
  let ?cs = "[ListAlerts, SetPriceAlert (sample_env Undefined) ''abc'' 5 Below,
              DeleteAlert ''alert-8'', CheckPriceAlerts (sample_env (Num 12)) ''alert-7'']"
  have h: "find (\<lambda>a. id' a = ''alert-7'') (alerts_of ?A) = Some (sample_alert ''alert-7'' Above 10 True)
      \<and> active (sample_alert ''alert-7'' Above 10 True)
      \<and> regularMarketPrice (sample_env (Num 11)) (symbol (sample_alert ''alert-7'' Above 10 True))
          = Num 11
      \<and> (11::rat) \<noteq> 0 \<and> triggered (sample_alert ''alert-7'' Above 10 True) 11"
    by (simp add: sample_find sample_active sample_feed)
       (simp add: triggered_def sample_alert_def)
  have c: "created ?cs = [newAlert (sample_env Undefined) ''abc'' 5 Below]"
    by simp
  have f: "''alert-7'' \<notin> id' ` set (created ?cs)"
    unfolding c by (simp add: newAlert_def sample_clock_id)
  note t = active_flag_only_goes_from_true_to_false
             [of "sample_env (Num 12)" "''alert-7''" ?A "''abc''" 5 Below ?cs "''alert-7''" ?A
                 "sample_alert ''alert-7'' Above 10 True" "sample_env (Num 11)" 11
                 "sample_env (Num 12)"]
  from t h f show ?thesis
    by blast
qed

text \<open>
  C7 as stated, for every execution, fails: nothing serialises the operations, and the check
  writes back the collection it read before its awaits. Here the check of \<^verbatim>\<open>alert-7\<close> has
  read the collection and awaits the feed; the check of \<^verbatim>\<open>alert-8\<close> triggers meanwhile
  and sets that alert's flag to false; the first check then triggers too and stores the
  collection it had read, in which \<^verbatim>\<open>alert-8\<close> is active: the flag is back to true and
  the alert is listed again.
\<close>

theorem interleaved_check_sets_active_back_to_true:
  "checkPriceAlerts_begin ''alert-7''
       (sample_chat [sample_alert ''alert-7'' Above 10 True, sample_alert ''alert-8'' Below 5 True])
     = Some ([sample_alert ''alert-7'' Above 10 True, sample_alert ''alert-8'' Below 5 True],
             sample_alert ''alert-7'' Above 10 True)
   \<and> alerts_of (checkPriceAlerts (sample_env (Num 4)) ''alert-8''
       (sample_chat [sample_alert ''alert-7'' Above 10 True, sample_alert ''alert-8'' Below 5 True]))
     = [sample_alert ''alert-7'' Above 10 True, sample_alert ''alert-8'' Below 5 False]
   \<and> listed_ids (snd (listAlerts (checkPriceAlerts (sample_env (Num 4)) ''alert-8''
       (sample_chat [sample_alert ''alert-7'' Above 10 True, sample_alert ''alert-8'' Below 5 True]))))
     = [''alert-7'']
   \<and> alerts_of (checkPriceAlerts_resume (sample_env (Num 11)) ''alert-7''
       [sample_alert ''alert-7'' Above 10 True, sample_alert ''alert-8'' Below 5 True]
       (sample_alert ''alert-7'' Above 10 True)
       (checkPriceAlerts (sample_env (Num 4)) ''alert-8''
          (sample_chat [sample_alert ''alert-7'' Above 10 True,
                        sample_alert ''alert-8'' Below 5 True])))
     = [sample_alert ''alert-7'' Above 10 False, sample_alert ''alert-8'' Below 5 True]
   \<and> listed_ids (snd (listAlerts (checkPriceAlerts_resume (sample_env (Num 11)) ''alert-7''
       [sample_alert ''alert-7'' Above 10 True, sample_alert ''alert-8'' Below 5 True]
       (sample_alert ''alert-7'' Above 10 True)
       (checkPriceAlerts (sample_env (Num 4)) ''alert-8''
          (sample_chat [sample_alert ''alert-7'' Above 10 True,
                        sample_alert ''alert-8'' Below 5 True])))))
     = [''alert-8'']"
proof -
  let ?a = "sample_alert ''alert-7'' Above 10 True"
  let ?b = "sample_alert ''alert-8'' Below 5 True"
  let ?S = "sample_chat [?a, ?b]"
  let ?S1 = "checkPriceAlerts (sample_env (Num 4)) ''alert-8'' ?S"
  let ?S2 = "checkPriceAlerts_resume (sample_env (Num 11)) ''alert-7'' [?a, ?b] ?a ?S1"
  have as: "alerts_of ?S = [?a, ?b]"
    by (simp add: sample_chat_def alerts_of_def)
  have fa: "find (\<lambda>a. id' a = ''alert-7'') (alerts_of ?S) = Some ?a"
    by (simp add: sample_chat_def alerts_of_def sample_alert_def)
  have fb: "find (\<lambda>a. id' a = ''alert-8'') (alerts_of ?S) = Some ?b"
    by (simp add: sample_chat_def alerts_of_def sample_alert_def)
  have act: "active ?a" "active ?b"
    by (simp_all add: sample_active)
  have 1: "checkPriceAlerts_begin ''alert-7'' ?S = Some ([?a, ?b], ?a)"
    using fa act(1) by (simp add: checkPriceAlerts_begin_def as)
  have tb: "triggered ?b 4" and ta: "triggered ?a 11"
    by (simp_all add: triggered_def sample_alert_def)
  have ub: "updatedAlerts ''alert-8'' [?a, ?b] = [?a, sample_alert ''alert-8'' Below 5 False]"
    by (simp add: updatedAlerts_def sample_alert_def)
  have ua: "updatedAlerts ''alert-7'' [?a, ?b] = [sample_alert ''alert-7'' Above 10 False, ?b]"
    by (simp add: updatedAlerts_def sample_alert_def)
  have "alerts_of ?S1 = updatedAlerts ''alert-8'' (alerts_of ?S)"
    using check_triggered [OF fb act(2) sample_feed _ tb] by simp
  then have 2: "alerts_of ?S1 = [?a, sample_alert ''alert-8'' Below 5 False]"
    by (simp only: as ub)
  have 3: "listed_ids (snd (listAlerts ?S1)) = [''alert-7'']"
    by (simp only: listed_ids_listAlerts 2) (simp add: sample_alert_def)
  have "alerts_of ?S2 = updatedAlerts ''alert-7'' [?a, ?b]"
    using resume_triggered [OF sample_feed _ ta, of "''alert-7''" "[?a, ?b]" ?S1] by simp
  then have 4: "alerts_of ?S2 = [sample_alert ''alert-7'' Above 10 False, ?b]"
    by (simp only: ua)
  have 5: "listed_ids (snd (listAlerts ?S2)) = [''alert-8'']"
    by (simp only: listed_ids_listAlerts 4) (simp add: sample_alert_def)
  from 1 2 3 4 5 show ?thesis by (intro conjI)
qed

subsection \<open>Deleting an alert\<close>

text \<open>
  C8, as the code has it. \<^verbatim>\<open>deleteAlert\<close> removes every alert that carries the id, keeps
  the others unchanged and in order, and reports the deletion; the collection shrinks by
  the number of alerts with that id, which is exactly one when the ids of the collection
  are pairwise distinct. When no alert carries the id it reports "not found" and leaves
  the agent as it was; that is an ordinary result. Deleting the same id a second time
  reports "not found".
\<close>

theorem deleteAlert_removes_every_alert_with_the_id:
  "(alertId \<in> id' ` set (alerts_of agent) \<longrightarrow>
      snd (deleteAlert alertId agent) = check_mark @ '' Alert '' @ alertId @ '' has been deleted''
      \<and> alerts_of (fst (deleteAlert alertId agent))
          = filter (\<lambda>a. id' a \<noteq> alertId) (alerts_of agent)
      \<and> alertId \<notin> id' ` set (alerts_of (fst (deleteAlert alertId agent)))
      \<and> length (alerts_of (fst (deleteAlert alertId agent)))
          + length (filter (\<lambda>a. id' a = alertId) (alerts_of agent))
          = length (alerts_of agent)
      \<and> (distinct (map id' (alerts_of agent)) \<longrightarrow>
            length (alerts_of (fst (deleteAlert alertId agent))) + 1 = length (alerts_of agent))
      \<and> messages (fst (deleteAlert alertId agent)) = messages agent
      \<and> schedules (fst (deleteAlert alertId agent)) = schedules agent)
   \<and> (alertId \<notin> id' ` set (alerts_of agent) \<longrightarrow>
        deleteAlert alertId agent = (agent, ''Alert with ID '' @ alertId @ '' not found''))
   \<and> deleteAlert alertId (fst (deleteAlert alertId agent))
       = (fst (deleteAlert alertId agent), ''Alert with ID '' @ alertId @ '' not found'')
   \<and> check_mark @ '' Alert '' @ alertId @ '' has been deleted''
       \<noteq> ''Alert with ID '' @ alertId @ '' not found''"
proof -
  let ?as = "alerts_of agent"
  let ?kept = "filter (\<lambda>a. id' a \<noteq> alertId) ?as"
  have len: "length ?kept + length (filter (\<lambda>a. id' a = alertId) ?as) = length ?as"
    using sum_length_filter_compl [of "\<lambda>a. id' a \<noteq> alertId" ?as] by simp
  have absent: "deleteAlert alertId ag = (ag, ''Alert with ID '' @ alertId @ '' not found'')"
    if "alertId \<notin> id' ` set (alerts_of ag)" for ag
  proof -
    from that have "filter (\<lambda>a. id' a \<noteq> alertId) (alerts_of ag) = alerts_of ag"
      by (auto simp: filter_id_conv)
    then show ?thesis by (simp add: deleteAlert_def Let_def)
  qed
  have gone: "alertId \<notin> id' ` set (alerts_of (fst (deleteAlert alertId agent)))"
    by (auto simp: alerts_of_deleteAlert)
  have present: "snd (deleteAlert alertId agent)
        = check_mark @ '' Alert '' @ alertId @ '' has been deleted''
      \<and> messages (fst (deleteAlert alertId agent)) = messages agent
      \<and> schedules (fst (deleteAlert alertId agent)) = schedules agent"
    if "alertId \<in> id' ` set ?as"
  proof -
    from that have "filter (\<lambda>a. id' a = alertId) ?as \<noteq> []"
      by (auto simp: filter_empty_conv)
    then have "length (filter (\<lambda>a. id' a = alertId) ?as) \<noteq> 0"
      by (simp only: length_0_conv not_False_eq_True)
    with len have "length ?as \<noteq> length ?kept" by arith
    then show ?thesis by (simp add: deleteAlert_def Let_def)
  qed
  have one: "length (alerts_of (fst (deleteAlert alertId agent))) + 1 = length ?as"
    if "alertId \<in> id' ` set ?as" and "distinct (map id' ?as)"
  proof -
    from that have "length (filter (\<lambda>a. id' a = alertId) ?as) = 1"
      by (simp add: one_alert_per_id)
    with len show ?thesis by (simp add: alerts_of_deleteAlert)
  qed
  have diff: "check_mark @ '' Alert '' @ alertId @ '' has been deleted''
       \<noteq> ''Alert with ID '' @ alertId @ '' not found''"
    by (simp add: check_mark_def)
  from present one gone len absent [of agent] absent [OF gone] diff alerts_of_deleteAlert
  show ?thesis
    by (simp add: alerts_of_deleteAlert)
qed

theorem deleteAlert_removes_every_alert_with_the_id_witness:
  "snd (deleteAlert ''alert-7''
      (sample_chat [sample_alert ''alert-7'' Above 10 True, sample_alert ''alert-8'' Below 5 True]))
     = check_mark @ '' Alert alert-7 has been deleted''
   \<and> alerts_of (fst (deleteAlert ''alert-7''
      (sample_chat [sample_alert ''alert-7'' Above 10 True, sample_alert ''alert-8'' Below 5 True])))
     = [sample_alert ''alert-8'' Below 5 True]
   \<and> length (alerts_of (fst (deleteAlert ''alert-7''
      (sample_chat [sample_alert ''alert-7'' Above 10 True, sample_alert ''alert-8'' Below 5 True]))))
       + 1 = 2
   \<and> snd (deleteAlert ''alert-7'' (fst (deleteAlert ''alert-7''
      (sample_chat [sample_alert ''alert-7'' Above 10 True, sample_alert ''alert-8'' Below 5 True]))))
     = ''Alert with ID alert-7 not found''
   \<and> deleteAlert ''alert-9''
      (sample_chat [sample_alert ''alert-7'' Above 10 True, sample_alert ''alert-8'' Below 5 True])
     = (sample_chat [sample_alert ''alert-7'' Above 10 True, sample_alert ''alert-8'' Below 5 True],
        ''Alert with ID alert-9 not found'')"
proof -
  let ?A = "sample_chat [sample_alert ''alert-7'' Above 10 True, sample_alert ''alert-8'' Below 5 True]"
  note t7 = deleteAlert_removes_every_alert_with_the_id [of "''alert-7''" ?A]
  note t9 = deleteAlert_removes_every_alert_with_the_id [of "''alert-9''" ?A]
  have ids: "map id' (alerts_of ?A) = [''alert-7'', ''alert-8'']"
    by (simp add: sample_chat_def alerts_of_def sample_alert_def)
  have len: "length (alerts_of ?A) = 2"
    by (simp add: sample_chat_def alerts_of_def)
  have kept: "filter (\<lambda>a. id' a \<noteq> ''alert-7'') (alerts_of ?A) = [sample_alert ''alert-8'' Below 5 True]"
    by (simp add: sample_chat_def alerts_of_def sample_alert_def)
  have h7: "''alert-7'' \<in> id' ` set (alerts_of ?A)"
    using ids by (simp flip: set_map)
  have h9: "''alert-9'' \<notin> id' ` set (alerts_of ?A)"
    using ids by (simp flip: set_map)
  have d: "distinct (map id' (alerts_of ?A))"
    by (simp add: ids)
  from t7 h7 have 1: "snd (deleteAlert ''alert-7'' ?A)
     = check_mark @ '' Alert '' @ ''alert-7'' @ '' has been deleted''"
    by blast
  from t7 h7 have "alerts_of (fst (deleteAlert ''alert-7'' ?A))
     = filter (\<lambda>a. id' a \<noteq> ''alert-7'') (alerts_of ?A)"
    by blast
  then have 2: "alerts_of (fst (deleteAlert ''alert-7'' ?A)) = [sample_alert ''alert-8'' Below 5 True]"
    unfolding kept .
  from t7 h7 d have "length (alerts_of (fst (deleteAlert ''alert-7'' ?A))) + 1
     = length (alerts_of ?A)"
    by blast
  then have 3: "length (alerts_of (fst (deleteAlert ''alert-7'' ?A))) + 1 = 2"
    unfolding len .
  from t7 have "deleteAlert ''alert-7'' (fst (deleteAlert ''alert-7'' ?A))
       = (fst (deleteAlert ''alert-7'' ?A), ''Alert with ID '' @ ''alert-7'' @ '' not found'')"
    by blast
  then have 4: "snd (deleteAlert ''alert-7'' (fst (deleteAlert ''alert-7'' ?A)))
     = ''Alert with ID '' @ ''alert-7'' @ '' not found''"
    by simp
  from t9 h9 have 5: "deleteAlert ''alert-9'' ?A
     = (?A, ''Alert with ID '' @ ''alert-9'' @ '' not found'')"
    by blast
  from 1 2 3 4 5 show ?thesis by simp
qed

text \<open>
  C8 as stated (the size decreases by exactly one) fails on a collection that two
  \<^verbatim>\<open>setPriceAlert\<close> calls built while the clock showed the same millisecond: both alerts
  carry the id, and one \<^verbatim>\<open>deleteAlert\<close> removes the two of them.
\<close>

theorem deleteAlert_removes_two_alerts_sharing_an_id:
  "length (alerts_of same_millisecond_twice) = 2
   \<and> map id' (alerts_of same_millisecond_twice)
       = [''alert-1700000000000'', ''alert-1700000000000'']
   \<and> snd (deleteAlert ''alert-1700000000000'' same_millisecond_twice)
       = check_mark @ '' Alert alert-1700000000000 has been deleted''
   \<and> length (alerts_of (fst (deleteAlert ''alert-1700000000000'' same_millisecond_twice))) = 0"
proof -
  let ?x = "''alert-1700000000000''"
  have 1: "length (alerts_of same_millisecond_twice) = 2"
    using ids_same_millisecond_twice [THEN arg_cong, of length] by simp
  have "map id' (filter (\<lambda>a. id' a \<noteq> ?x) (alerts_of same_millisecond_twice))
          = filter (\<lambda>i. i \<noteq> ?x) (map id' (alerts_of same_millisecond_twice))"
    by (simp add: filter_map comp_def)
  then have "map id' (filter (\<lambda>a. id' a \<noteq> ?x) (alerts_of same_millisecond_twice)) = []"
    by (simp only: ids_same_millisecond_twice) simp
  then have k: "filter (\<lambda>a. id' a \<noteq> ?x) (alerts_of same_millisecond_twice) = []"
    by simp
  have 3: "snd (deleteAlert ?x same_millisecond_twice)
            = check_mark @ '' Alert alert-1700000000000 has been deleted''"
    by (simp add: deleteAlert_def Let_def k 1)
  have 4: "length (alerts_of (fst (deleteAlert ?x same_millisecond_twice))) = 0"
    by (simp add: alerts_of_deleteAlert k)
  from 1 ids_same_millisecond_twice 3 4 show ?thesis by (intro conjI)
qed

subsection \<open>Listing the alerts\<close>

text \<open>
  C9. \<^verbatim>\<open>listAlerts\<close> leaves the agent as it was and reports exactly the alerts with
  \<^verbatim>\<open>active == true\<close>, in the order of the collection, each with its id, symbol,
  condition, targetPrice and createdAt (and their count). When there is none, the report
  is the sentence saying so.
\<close>

theorem listAlerts_lists_the_active_alerts_in_order:
  "fst (listAlerts agent) = agent
   \<and> (case snd (listAlerts agent) of
         Notice t \<Rightarrow>
           filter active (alerts_of agent) = []
           \<and> t = ''No active price alerts. Use setPriceAlert to create one!''
       | Listing n es \<Rightarrow>
           filter active (alerts_of agent) \<noteq> []
           \<and> n = length (filter active (alerts_of agent))
           \<and> length es = length (filter active (alerts_of agent))
           \<and> map entry_id es = map id' (filter active (alerts_of agent))
           \<and> map entry_symbol es = map symbol (filter active (alerts_of agent))
           \<and> map entry_condition es = map condition (filter active (alerts_of agent))
           \<and> map entry_targetPrice es = map targetPrice (filter active (alerts_of agent))
           \<and> map entry_createdAt es = map createdAt (filter active (alerts_of agent)))"
proof (cases "filter active (alerts_of agent) = []")
  case True
  then show ?thesis by (simp add: listAlerts_def Let_def)
next
  case False
  then show ?thesis by (simp add: listAlerts_def Let_def entry_of_def comp_def)
qed

theorem listAlerts_lists_the_active_alerts_in_order_witness:
  "listAlerts (sample_chat [sample_alert ''alert-7'' Above 10 True,
       sample_alert ''alert-8'' Below 5 False, sample_alert ''alert-9'' Below 7 True])
     = (sample_chat [sample_alert ''alert-7'' Above 10 True,
          sample_alert ''alert-8'' Below 5 False, sample_alert ''alert-9'' Below 7 True],
        Listing 2 [entry_of (sample_alert ''alert-7'' Above 10 True),
                   entry_of (sample_alert ''alert-9'' Below 7 True)])
   \<and> listAlerts (sample_chat [sample_alert ''alert-8'' Below 5 False])
     = (sample_chat [sample_alert ''alert-8'' Below 5 False],
        Notice ''No active price alerts. Use setPriceAlert to create one!'')"
proof -
  let ?A = "sample_chat [sample_alert ''alert-7'' Above 10 True,
       sample_alert ''alert-8'' Below 5 False, sample_alert ''alert-9'' Below 7 True]"
  let ?B = "sample_chat [sample_alert ''alert-8'' Below 5 False]"
  have a: "snd (listAlerts ?A) = Listing 2 [entry_of (sample_alert ''alert-7'' Above 10 True),
                   entry_of (sample_alert ''alert-9'' Below 7 True)]"
    by (simp add: listAlerts_def Let_def sample_chat_def alerts_of_def sample_active)
  have b: "snd (listAlerts ?B) = Notice ''No active price alerts. Use setPriceAlert to create one!''"
    by (simp add: listAlerts_def Let_def sample_chat_def alerts_of_def sample_active)
  from listAlerts_lists_the_active_alerts_in_order [of ?A]
  have fa: "fst (listAlerts ?A) = ?A" by (rule conjunct1)
  from listAlerts_lists_the_active_alerts_in_order [of ?B]
  have fb: "fst (listAlerts ?B) = ?B" by (rule conjunct1)
  from a b fa fb show ?thesis
    by (simp add: prod_eq_iff)
qed

subsection \<open>A price of zero or no price\<close>

text \<open>
  C10. When the feed answers but the extracted price is 0 or absent, line 160
  (\<^verbatim>\<open>if (!currentPrice) return\<close>) ends the check before the trigger condition is
  evaluated: the agent is as it was (no notification, no change of state, no new wake-up),
  even for an alert with condition \<^verbatim>\<open>below\<close> and a positive target, for which a price of
  0 satisfies the trigger condition.
\<close>

theorem falsy_price_is_treated_as_feed_failure:
  assumes "find (\<lambda>a. id' a = alertId) (alerts_of this) = Some a" and "active a"
    and "regularMarketPrice env (symbol a) = Num 0
         \<or> regularMarketPrice env (symbol a) = Undefined"
  shows "checkPriceAlerts env alertId this = this
         \<and> (condition a = Below \<and> 0 < targetPrice a \<longrightarrow> triggered a 0)"
proof -
  have "checkPriceAlerts env alertId this = this"
    using assms(1,3) by (auto simp: check_no_price)
  moreover have "condition a = Below \<and> 0 < targetPrice a \<longrightarrow> triggered a 0"
    by (simp add: triggered_def)
  ultimately show ?thesis by simp
qed

theorem falsy_price_is_treated_as_feed_failure_witness:
  "checkPriceAlerts (sample_env (Num 0)) ''alert-7''
       (sample_chat [sample_alert ''alert-7'' Below 50 True])
     = sample_chat [sample_alert ''alert-7'' Below 50 True]
   \<and> checkPriceAlerts (sample_env Undefined) ''alert-7''
       (sample_chat [sample_alert ''alert-7'' Below 50 True])
     = sample_chat [sample_alert ''alert-7'' Below 50 True]
   \<and> triggered (sample_alert ''alert-7'' Below 50 True) 0"
proof -
  have h1: "find (\<lambda>a. id' a = ''alert-7'')
              (alerts_of (sample_chat [sample_alert ''alert-7'' Below 50 True]))
            = Some (sample_alert ''alert-7'' Below 50 True)"
    by (simp add: sample_chat_def sample_alert_def alerts_of_def)
  have h2: "active (sample_alert ''alert-7'' Below 50 True)"
    by (simp add: sample_alert_def)
  have h3: "regularMarketPrice (sample_env (Num 0))
              (symbol (sample_alert ''alert-7'' Below 50 True)) = Num 0
            \<or> regularMarketPrice (sample_env (Num 0))
              (symbol (sample_alert ''alert-7'' Below 50 True)) = Undefined"
    by (simp add: sample_env_def)
  have h4: "regularMarketPrice (sample_env Undefined)
              (symbol (sample_alert ''alert-7'' Below 50 True)) = Num 0
            \<or> regularMarketPrice (sample_env Undefined)
              (symbol (sample_alert ''alert-7'' Below 50 True)) = Undefined"
    by (simp add: sample_env_def)
  have h5: "condition (sample_alert ''alert-7'' Below 50 True) = Below
            \<and> 0 < targetPrice (sample_alert ''alert-7'' Below 50 True)"
    by (simp add: sample_alert_def)
  show ?thesis
    using falsy_price_is_treated_as_feed_failure [OF h1 h2 h3]
          falsy_price_is_treated_as_feed_failure [OF h1 h2 h4] h5
    by blast
qed

end
